theory Spec2Isabelle
  imports Main "HOL-Library.Multiset"
begin

section \<open>Items of a DynamoDB table\<close>

text \<open>
  The script \<open>scripts/review-database.py\<close> reads items through the low-level boto3
  client. There an item is a dict from attribute name to a one-entry dict that tags the
  value with its DynamoDB type: \<^verbatim>\<open>{'accountId': {'S': 'a-1'}, 'active': {'BOOL': True}}\<close>.
  An attribute value is modelled by its tag and payload, an item by the list of its
  entries (a Python dict keeps insertion order and has no repeated key; \<open>map_of\<close> reads
  the first entry of a name).
\<close>

datatype attribute_value = S string | N string | B string | BOOL bool | NULL bool

type_synonym item = "(string \<times> attribute_value) list"

text \<open>\<^verbatim>\<open>item.get(name, {})\<close>: the tagged value, or the empty dict (here \<open>None\<close>).\<close>

definition get_attr :: "item \<Rightarrow> string \<Rightarrow> attribute_value option" where
  "get_attr item name = map_of item name"

text \<open>\<^verbatim>\<open>.get('S')\<close> on the tagged value: the string, or Python's \<open>None\<close> when the tag is
  another one or the attribute is missing.\<close>

fun get_S :: "attribute_value option \<Rightarrow> string option" where
  "get_S (Some (S s)) = Some s"
| "get_S _ = None"

text \<open>\<^verbatim>\<open>.get('S', default)\<close>.\<close>

definition get_S_default :: "attribute_value option \<Rightarrow> string \<Rightarrow> string" where
  "get_S_default a d = (case get_S a of Some s \<Rightarrow> s | None \<Rightarrow> d)"

text \<open>\<^verbatim>\<open>.get('BOOL', default)\<close>.\<close>

fun get_BOOL_default :: "attribute_value option \<Rightarrow> bool \<Rightarrow> bool" where
  "get_BOOL_default (Some (BOOL b)) d = b"
| "get_BOOL_default _ d = d"

text \<open>Python's truth value of an optional string (\<^verbatim>\<open>if account_id:\<close>): \<open>None\<close> and the
  empty string are false.\<close>

fun truthy :: "string option \<Rightarrow> bool" where
  "truthy None = False"
| "truthy (Some s) = (s \<noteq> [])"

section \<open>The dictionaries of the analysis\<close>

text \<open>
  A \<^verbatim>\<open>defaultdict(list)\<close> and a \<^verbatim>\<open>defaultdict(int)\<close> keyed by strings, as lists of
  entries in insertion order. \<^verbatim>\<open>d[k].append(v)\<close> and \<^verbatim>\<open>d[k] += 1\<close> update the
  entry of \<open>k\<close> where it stands, or add a new entry at the end, starting from the
  default (\<open>[]\<close>, \<open>0\<close>). The counters only ever grow from zero, so they are naturals.
\<close>

type_synonym id_map = "(string \<times> item list) list"

type_synonym counter = "(string \<times> nat) list"

fun dd_append :: "id_map \<Rightarrow> string \<Rightarrow> item \<Rightarrow> id_map" where
  "dd_append [] k v = [(k, [v])]"
| "dd_append ((k', vs) # m) k v =
     (if k' = k then (k', vs @ [v]) # m else (k', vs) # dd_append m k v)"

fun dd_incr :: "counter \<Rightarrow> string \<Rightarrow> counter" where
  "dd_incr [] k = [(k, 1)]"
| "dd_incr ((k', c) # m) k =
     (if k' = k then (k', c + 1) # m else (k', c) # dd_incr m k)"

text \<open>\<^verbatim>\<open>d[k] = v\<close> on a plain dict.\<close>

fun dict_set :: "id_map \<Rightarrow> string \<Rightarrow> item list \<Rightarrow> id_map" where
  "dict_set [] k v = [(k, v)]"
| "dict_set ((k', v') # m) k v =
     (if k' = k then (k', v) # m else (k', v') # dict_set m k v)"

text \<open>\<^verbatim>\<open>if x_id: x_id_map[x_id].append(item)\<close>.\<close>

definition append_if_truthy :: "id_map \<Rightarrow> string option \<Rightarrow> item \<Rightarrow> id_map" where
  "append_if_truthy m v item =
     (if truthy v then (case v of Some s \<Rightarrow> dd_append m s item | None \<Rightarrow> m) else m)"

text \<open>
  The loops under \<^verbatim>\<open># Find duplicates\<close>:
  \<^verbatim>\<open>for k, group in x_id_map.items(): if len(group) > 1: analysis[...][k] = group\<close>,
  with the dict being filled as the accumulator.
\<close>

fun find_duplicates :: "id_map \<Rightarrow> id_map \<Rightarrow> id_map" where
  "find_duplicates [] dups = dups"
| "find_duplicates ((k, grp) # m) dups =
     find_duplicates m (if length grp > 1 then dict_set dups k grp else dups)"

section \<open>\<open>analyze_accounts\<close> and \<open>analyze_transactions\<close>\<close>

text \<open>The \<open>analysis\<close> dicts. The keys \<open>total\<close>, \<open>duplicate_plaid_ids\<close> and \<open>by_user\<close> are
  common to both functions.\<close>

record analysis_common =
  total :: nat
  duplicate_plaid_ids :: id_map
  by_user :: counter

record account_analysis = analysis_common +
  duplicate_account_ids :: id_map
  active :: nat
  inactive :: nat

record transaction_analysis = analysis_common +
  duplicate_transaction_ids :: id_map
  by_account :: counter

text \<open>The body of \<^verbatim>\<open>for item in items:\<close> of \<open>analyze_accounts\<close>, on the two local maps
  and the analysis.\<close>

definition accounts_step ::
  "item \<Rightarrow> id_map \<times> id_map \<times> account_analysis \<Rightarrow> id_map \<times> id_map \<times> account_analysis" where
  "accounts_step item st =
     (case st of (account_id_map, plaid_id_map, analysis) \<Rightarrow>
        let account_id = get_S (get_attr item ''accountId'');
            plaid_id = get_S (get_attr item ''plaidAccountId'');
            user_id = get_S_default (get_attr item ''userId'') ''N/A'';
            is_active = get_BOOL_default (get_attr item ''active'') True;
            account_id_map' = append_if_truthy account_id_map account_id item;
            plaid_id_map' = append_if_truthy plaid_id_map plaid_id item;
            analysis1 = analysis\<lparr>by_user := dd_incr (by_user analysis) user_id\<rparr>;
            analysis2 =
              (if is_active then analysis1\<lparr>active := active analysis1 + 1\<rparr>
               else analysis1\<lparr>inactive := inactive analysis1 + 1\<rparr>)
        in (account_id_map', plaid_id_map', analysis2))"

fun accounts_loop ::
  "item list \<Rightarrow> id_map \<times> id_map \<times> account_analysis \<Rightarrow> id_map \<times> id_map \<times> account_analysis" where
  "accounts_loop [] st = st"
| "accounts_loop (item # items) st = accounts_loop items (accounts_step item st)"

definition analyze_accounts :: "item list \<Rightarrow> account_analysis" where
  "analyze_accounts items =
     (let analysis = \<lparr>total = length items, duplicate_plaid_ids = [], by_user = [],
                      duplicate_account_ids = [], active = 0, inactive = 0\<rparr>
      in case accounts_loop items ([], [], analysis) of
           (account_id_map, plaid_id_map, analysis1) \<Rightarrow>
             let analysis2 = analysis1\<lparr>duplicate_account_ids :=
                   find_duplicates account_id_map (duplicate_account_ids analysis1)\<rparr>
             in analysis2\<lparr>duplicate_plaid_ids :=
                   find_duplicates plaid_id_map (duplicate_plaid_ids analysis2)\<rparr>)"

text \<open>The same for \<open>analyze_transactions\<close>.\<close>

definition transactions_step ::
  "item \<Rightarrow> id_map \<times> id_map \<times> transaction_analysis
     \<Rightarrow> id_map \<times> id_map \<times> transaction_analysis" where
  "transactions_step item st =
     (case st of (transaction_id_map, plaid_id_map, analysis) \<Rightarrow>
        let trans_id = get_S (get_attr item ''transactionId'');
            plaid_id = get_S (get_attr item ''plaidTransactionId'');
            user_id = get_S_default (get_attr item ''userId'') ''N/A'';
            account_id = get_S_default (get_attr item ''accountId'') ''N/A'';
            transaction_id_map' = append_if_truthy transaction_id_map trans_id item;
            plaid_id_map' = append_if_truthy plaid_id_map plaid_id item;
            analysis1 = analysis\<lparr>by_user := dd_incr (by_user analysis) user_id\<rparr>;
            analysis2 = analysis1\<lparr>by_account := dd_incr (by_account analysis1) account_id\<rparr>
        in (transaction_id_map', plaid_id_map', analysis2))"

fun transactions_loop ::
  "item list \<Rightarrow> id_map \<times> id_map \<times> transaction_analysis
     \<Rightarrow> id_map \<times> id_map \<times> transaction_analysis" where
  "transactions_loop [] st = st"
| "transactions_loop (item # items) st = transactions_loop items (transactions_step item st)"

definition analyze_transactions :: "item list \<Rightarrow> transaction_analysis" where
  "analyze_transactions items =
     (let analysis = \<lparr>total = length items, duplicate_plaid_ids = [], by_user = [],
                      duplicate_transaction_ids = [], by_account = []\<rparr>
      in case transactions_loop items ([], [], analysis) of
           (transaction_id_map, plaid_id_map, analysis1) \<Rightarrow>
             let analysis2 = analysis1\<lparr>duplicate_transaction_ids :=
                   find_duplicates transaction_id_map (duplicate_transaction_ids analysis1)\<rparr>
             in analysis2\<lparr>duplicate_plaid_ids :=
                   find_duplicates plaid_id_map (duplicate_plaid_ids analysis2)\<rparr>)"

section \<open>\<open>scan_table\<close>\<close>

text \<open>
  The DynamoDB client is a parameter of the script: its two operations take the state
  of the backend and return a reply or the exception raised, and the next state.
  \<open>ResourceNotFoundException\<close> is the exception class \<open>main\<close> catches by name; \<open>Exception\<close>
  stands for every other exception, with its message.
\<close>

datatype exn = ResourceNotFoundException string | Exception string

text \<open>The reply of \<open>scan\<close>: the keys \<open>Items\<close> and \<open>LastEvaluatedKey\<close> may be missing
  (the script reads both with \<open>.get\<close>). A key is an item of the key attributes.\<close>

record scan_response =
  Items :: "item list option"
  LastEvaluatedKey :: "item option"

record table_description =
  ItemCount :: "nat option"

record describe_response =
  Table :: "table_description option"

record 'c client =
  describe_table :: "'c \<Rightarrow> string \<Rightarrow> (exn + describe_response) \<times> 'c"
  scan :: "'c \<Rightarrow> string \<Rightarrow> item option \<Rightarrow> (exn + scan_response) \<times> 'c"

text \<open>The truth value of \<open>last_evaluated_key\<close>: \<open>None\<close> and the empty dict are false.\<close>

fun truthy_key :: "item option \<Rightarrow> bool" where
  "truthy_key None = False"
| "truthy_key (Some k) = (k \<noteq> [])"

text \<open>What the script prints and writes, as a list of events in order.\<close>

datatype event =
    Header string
  | TableExists string "nat option"
  | TableMissing string
  | ErrorChecking string exn
  | Scanning string
  | Found nat
  | AccountReport account_analysis
  | TransactionReport transaction_analysis
  | AccountsFile string account_analysis
  | TransactionsFile string transaction_analysis
  | ErrorAnalyzing string exn

text \<open>
  The \<^verbatim>\<open>while True:\<close> loop of \<open>scan_table\<close>, on \<open>items\<close> and \<open>last_evaluated_key\<close>. A
  backend that answers every page with a cursor keeps the loop running: the result is
  \<open>None\<close> then. An exception of \<open>scan\<close> leaves the loop and the function.
\<close>

partial_function (option) scan_loop ::
  "'c client \<Rightarrow> 'c \<Rightarrow> string \<Rightarrow> item list \<Rightarrow> item option \<Rightarrow> ((exn + item list) \<times> 'c) option" where
  "scan_loop dynamodb_client c table_name items last_evaluated_key =
     (case (if truthy_key last_evaluated_key
            then scan dynamodb_client c table_name last_evaluated_key
            else scan dynamodb_client c table_name None) of
        (Inl e, c') \<Rightarrow> Some (Inl e, c')
      | (Inr response, c') \<Rightarrow>
          (let items' = items @ (case Items response of Some xs \<Rightarrow> xs | None \<Rightarrow> []);
               last_evaluated_key' = LastEvaluatedKey response
           in if \<not> truthy_key last_evaluated_key' then Some (Inr items', c')
              else scan_loop dynamodb_client c' table_name items' last_evaluated_key'))"

definition scan_table ::
  "'c client \<Rightarrow> 'c \<Rightarrow> string \<Rightarrow> ((exn + item list) \<times> 'c \<times> event list) option" where
  "scan_table dynamodb_client c table_name =
     (case scan_loop dynamodb_client c table_name [] None of
        None \<Rightarrow> None
      | Some (Inl e, c') \<Rightarrow> Some (Inl e, c', [Scanning table_name])
      | Some (Inr items, c') \<Rightarrow>
          Some (Inr items, c', [Scanning table_name, Found (length items)]))"

section \<open>\<open>main\<close>\<close>

text \<open>
  The command line arguments. The client is built before anything else (a failure there
  exits the script); \<open>main\<close> below starts from the client. Of the printed lines, the
  region, prefix and time stamp are left out; the file system is taken to accept the
  two JSON files.
\<close>

record args =
  region :: string
  table_prefix :: string
  output_dir :: "string option"

definition tables_of :: "args \<Rightarrow> string list" where
  "tables_of a =
     [table_prefix a @ ''-Users'', table_prefix a @ ''-Accounts'',
      table_prefix a @ ''-Transactions'', table_prefix a @ ''-Budgets'',
      table_prefix a @ ''-Goals'', table_prefix a @ ''-AuditLogs'']"

text \<open>
  One round of \<^verbatim>\<open>for table in tables:\<close>: whether the table is appended to
  \<open>existing_tables\<close>, the line printed, and the next state. \<^verbatim>\<open>response['Table']\<close>
  raises \<open>KeyError\<close> on a reply without that key, which \<^verbatim>\<open>except Exception\<close> catches.
\<close>

definition check_table :: "'c client \<Rightarrow> 'c \<Rightarrow> string \<Rightarrow> bool \<times> event \<times> 'c" where
  "check_table dynamodb c table =
     (case describe_table dynamodb c table of
        (Inr response, c') \<Rightarrow>
          (case Table response of
             Some t \<Rightarrow> (True, TableExists table (ItemCount t), c')
           | None \<Rightarrow> (False, ErrorChecking table (Exception ''KeyError: Table''), c'))
      | (Inl e, c') \<Rightarrow>
          (case e of
             ResourceNotFoundException m \<Rightarrow> (False, TableMissing table, c')
           | Exception m \<Rightarrow> (False, ErrorChecking table e, c')))"

fun check_tables ::
  "'c client \<Rightarrow> 'c \<Rightarrow> string list \<Rightarrow> string list \<Rightarrow> event list
     \<Rightarrow> string list \<times> 'c \<times> event list" where
  "check_tables dynamodb c [] existing_tables out = (existing_tables, c, out)"
| "check_tables dynamodb c (table # tables) existing_tables out =
     (case check_table dynamodb c table of
        (ok, line, c') \<Rightarrow>
          check_tables dynamodb c' tables
            (if ok then existing_tables @ [table] else existing_tables) (out @ [line]))"

text \<open>
  What follows the scan inside the \<^verbatim>\<open>try:\<close> block: under \<^verbatim>\<open>if accounts:\<close> the analysis,
  its printed report and, with an output directory, the JSON file. Then the body of the
  \<^verbatim>\<open>try:\<close> block: the exception that leaves it, or \<open>()\<close>, with the state and the events
  so far. The same for the transactions.
\<close>

definition accounts_report :: "args \<Rightarrow> item list \<Rightarrow> event list" where
  "accounts_report a accounts =
     (if accounts \<noteq> [] then
        (let analysis = analyze_accounts accounts
         in AccountReport analysis #
            (if truthy (output_dir a)
             then (case output_dir a of
                     Some d \<Rightarrow> [AccountsFile (d @ ''/accounts-analysis.json'') analysis]
                   | None \<Rightarrow> [])
             else []))
      else [])"

definition accounts_try ::
  "'c client \<Rightarrow> 'c \<Rightarrow> args \<Rightarrow> ((exn + unit) \<times> 'c \<times> event list) option" where
  "accounts_try dynamodb c a =
     (case scan_table dynamodb c (table_prefix a @ ''-Accounts'') of
        None \<Rightarrow> None
      | Some (Inl e, c', out) \<Rightarrow> Some (Inl e, c', out)
      | Some (Inr accounts, c', out) \<Rightarrow> Some (Inr (), c', out @ accounts_report a accounts))"

definition transactions_report :: "args \<Rightarrow> item list \<Rightarrow> event list" where
  "transactions_report a transactions =
     (if transactions \<noteq> [] then
        (let analysis = analyze_transactions transactions
         in TransactionReport analysis #
            (if truthy (output_dir a)
             then (case output_dir a of
                     Some d \<Rightarrow>
                       [TransactionsFile (d @ ''/transactions-analysis.json'') analysis]
                   | None \<Rightarrow> [])
             else []))
      else [])"

definition transactions_try ::
  "'c client \<Rightarrow> 'c \<Rightarrow> args \<Rightarrow> ((exn + unit) \<times> 'c \<times> event list) option" where
  "transactions_try dynamodb c a =
     (case scan_table dynamodb c (table_prefix a @ ''-Transactions'') of
        None \<Rightarrow> None
      | Some (Inl e, c', out) \<Rightarrow> Some (Inl e, c', out)
      | Some (Inr transactions, c', out) \<Rightarrow>
          Some (Inr (), c', out @ transactions_report a transactions))"

text \<open>\<^verbatim>\<open>except Exception as e: print_error(f"Error analyzing {what}: {e}")\<close>.\<close>

definition except_exception ::
  "string \<Rightarrow> ((exn + unit) \<times> 'c \<times> event list) option \<Rightarrow> ('c \<times> event list) option" where
  "except_exception what r =
     (case r of
        None \<Rightarrow> None
      | Some (Inl e, c', out) \<Rightarrow> Some (c', out @ [ErrorAnalyzing what e])
      | Some (Inr u, c', out) \<Rightarrow> Some (c', out))"

definition main :: "'c client \<Rightarrow> 'c \<Rightarrow> args \<Rightarrow> ('c \<times> event list) option" where
  "main dynamodb c a =
     (case check_tables dynamodb c (tables_of a) [] [] of
        (existing_tables, c1, out1) \<Rightarrow>
          (case (if table_prefix a @ ''-Accounts'' \<in> set existing_tables
                 then map_option (\<lambda>(c', out). (c', Header ''Accounts Analysis'' # out))
                        (except_exception ''accounts'' (accounts_try dynamodb c1 a))
                 else Some (c1, [])) of
             None \<Rightarrow> None
           | Some (c2, out2) \<Rightarrow>
               (case (if table_prefix a @ ''-Transactions'' \<in> set existing_tables
                      then map_option (\<lambda>(c', out). (c', Header ''Transactions Analysis'' # out))
                             (except_exception ''transactions'' (transactions_try dynamodb c2 a))
                      else Some (c2, [])) of
                  None \<Rightarrow> None
                | Some (c3, out3) \<Rightarrow>
                    Some (c3,
                      [Header ''BudgetBuddy Database Review'', Header ''Step 1: Checking Tables'']
                      @ out1 @ [Header ''Step 2: Analyzing Tables''] @ out2 @ out3
                      @ [Header ''Review Complete!'']))))"

section \<open>A scripted backend\<close>

text \<open>
  A backend that answers from a script and records every call: \<open>describe_table\<close> answers
  from \<open>catalog\<close> (a table not listed there does not exist), \<open>scan\<close> hands out the next
  reply scripted for the table, whatever the start key, and raises once the replies
  of the table are used up.
\<close>

datatype call = DescribeTable string | Scan string "item option"

record backend =
  catalog :: "(string \<times> (exn + describe_response)) list"
  script :: "(string \<times> (exn + scan_response) list) list"
  calls :: "call list"

fun set_script ::
  "(string \<times> (exn + scan_response) list) list \<Rightarrow> string \<Rightarrow> (exn + scan_response) list
     \<Rightarrow> (string \<times> (exn + scan_response) list) list" where
  "set_script [] t rs = [(t, rs)]"
| "set_script ((t', rs') # m) t rs =
     (if t' = t then (t', rs) # m else (t', rs') # set_script m t rs)"

definition backend_describe_table ::
  "backend \<Rightarrow> string \<Rightarrow> (exn + describe_response) \<times> backend" where
  "backend_describe_table b t =
     ((case map_of (catalog b) t of
         Some r \<Rightarrow> r
       | None \<Rightarrow> Inl (ResourceNotFoundException t)),
      b\<lparr>calls := calls b @ [DescribeTable t]\<rparr>)"

definition backend_scan ::
  "backend \<Rightarrow> string \<Rightarrow> item option \<Rightarrow> (exn + scan_response) \<times> backend" where
  "backend_scan b t k =
     (case map_of (script b) t of
        Some (r # rs) \<Rightarrow>
          (r, b\<lparr>script := set_script (script b) t rs, calls := calls b @ [Scan t k]\<rparr>)
      | _ \<Rightarrow> (Inl (Exception ''no reply scripted''), b\<lparr>calls := calls b @ [Scan t k]\<rparr>))"

definition backend_client :: "backend client" where
  "backend_client = \<lparr>describe_table = backend_describe_table, scan = backend_scan\<rparr>"

text \<open>The items of a page, and whether \<open>describe_table\<close> confirms a table.\<close>

definition page_items :: "scan_response \<Rightarrow> item list" where
  "page_items r = (case Items r of Some xs \<Rightarrow> xs | None \<Rightarrow> [])"

definition confirmed :: "backend \<Rightarrow> string \<Rightarrow> bool" where
  "confirmed b t =
     (case map_of (catalog b) t of
        Some (Inr r) \<Rightarrow> Table r \<noteq> None
      | _ \<Rightarrow> False)"

definition check_line :: "backend \<Rightarrow> string \<Rightarrow> event" where
  "check_line b t =
     (case map_of (catalog b) t of
        None \<Rightarrow> TableMissing t
      | Some (Inl (ResourceNotFoundException m)) \<Rightarrow> TableMissing t
      | Some (Inl (Exception m)) \<Rightarrow> ErrorChecking t (Exception m)
      | Some (Inr r) \<Rightarrow>
          (case Table r of
             Some d \<Rightarrow> TableExists t (ItemCount d)
           | None \<Rightarrow> ErrorChecking t (Exception ''KeyError: Table'')))"

section \<open>Identity values and groups\<close>

text \<open>The value under which an item enters the index of a field: the string the item
  holds there, when the script's test \<^verbatim>\<open>if x_id:\<close> lets it pass.\<close>

definition identity_value :: "string \<Rightarrow> item \<Rightarrow> string option" where
  "identity_value f item =
     (let v = get_S (get_attr item f) in if truthy v then v else None)"

text \<open>The bucket of an item in an owner aggregate.\<close>

definition owner_bucket :: "string \<Rightarrow> item \<Rightarrow> string" where
  "owner_bucket f item = get_S_default (get_attr item f) ''N/A''"

text \<open>The items that share the identity value \<open>v\<close>, in scan order.\<close>

definition sharing :: "string \<Rightarrow> string \<Rightarrow> item list \<Rightarrow> item list" where
  "sharing f v items = filter (\<lambda>i. identity_value f i = Some v) items"

text \<open>The items whose field \<open>f\<close> holds the string \<open>v\<close>, in scan order; an item without
  the field; an item whose field holds a value no other item of the stream holds.\<close>

definition holders :: "string \<Rightarrow> string \<Rightarrow> item list \<Rightarrow> item list" where
  "holders f v items = filter (\<lambda>i. get_attr i f = Some (S v)) items"

definition lacks_field :: "string \<Rightarrow> item \<Rightarrow> bool" where
  "lacks_field f i = (get_attr i f = None)"

definition unique_field :: "string \<Rightarrow> item list \<Rightarrow> item \<Rightarrow> bool" where
  "unique_field f items i =
     (case get_attr i f of
        None \<Rightarrow> False
      | Some a \<Rightarrow> length (filter (\<lambda>j. get_attr j f = Some a) items) = 1)"

text \<open>The same two notions on identity values: an item with no identity value for \<open>f\<close>
  (no such field, a value that is not a string, or the empty string), and an item
  whose identity value no other item shares.\<close>

definition no_value :: "string \<Rightarrow> item \<Rightarrow> bool" where
  "no_value f i = (identity_value f i = None)"

definition unique_value :: "string \<Rightarrow> item list \<Rightarrow> item \<Rightarrow> bool" where
  "unique_value f items i =
     (case identity_value f i of
        None \<Rightarrow> False
      | Some v \<Rightarrow> length (sharing f v items) = 1)"

text \<open>
  The groups \<open>dups\<close> of a field cut the stream into parts: every item is counted once
  among the members of the groups, the items with no identity value and the items
  with a value of their own; no value has two groups, and the members of a group hold
  the value of the group.
\<close>

definition partition_of :: "string \<Rightarrow> item list \<Rightarrow> id_map \<Rightarrow> bool" where
  "partition_of f items dups =
     (mset (concat (map snd dups)) + mset (filter (no_value f) items)
        + mset (filter (unique_value f items) items) = mset items \<and>
      distinct (map fst dups) \<and>
      (\<forall>(v, g) \<in> set dups. \<forall>i \<in> set g. identity_value f i = Some v))"

text \<open>
  What duplicate detection emits for the value \<open>v\<close> of a field: a group exactly when
  \<open>v\<close> is a non-empty string that two or more items hold, the group being these items
  in scan order; and one group at most for a value.
\<close>

definition emitted :: "string \<Rightarrow> item list \<Rightarrow> id_map \<Rightarrow> string \<Rightarrow> bool" where
  "emitted f items dups v =
     (distinct (map fst dups) \<and>
      map_of dups v =
        (if v \<noteq> [] \<and> 2 \<le> length (holders f v items) then Some (holders f v items)
         else None))"

text \<open>
  An index or a set of groups \<open>m\<close> of a field leaves out the items without the field:
  every entry has members, each member is an item of the stream that holds the key of
  the entry as its value of the field. So no entry stands for a missing value.
\<close>

definition skips_missing :: "string \<Rightarrow> item list \<Rightarrow> id_map \<Rightarrow> bool" where
  "skips_missing f items m =
     (\<forall>(v, g) \<in> set m. g \<noteq> [] \<and> (\<forall>i \<in> set g. i \<in> set items \<and> get_attr i f = Some (S v)))"

definition in_some_group :: "item \<Rightarrow> id_map \<Rightarrow> bool" where
  "in_some_group r m = (r \<in> set (concat (map snd m)))"

text \<open>An index or a set of groups leaves out the item \<open>r\<close> when \<open>r\<close> lacks the field.\<close>

definition leaves_out :: "string \<Rightarrow> item list \<Rightarrow> item \<Rightarrow> id_map \<Rightarrow> bool" where
  "leaves_out f items r m =
     (skips_missing f items m \<and> (lacks_field f r \<longrightarrow> \<not> in_some_group r m))"

text \<open>The number of items that fall into the bucket \<open>u\<close> of the script.\<close>

definition bucket_count :: "string \<Rightarrow> string \<Rightarrow> item list \<Rightarrow> nat" where
  "bucket_count f u items = length (filter (\<lambda>i. owner_bucket f i = u) items)"

text \<open>The two local maps and the analysis of \<open>analyze_accounts\<close> and of
  \<open>analyze_transactions\<close> when their \<^verbatim>\<open>for item in items:\<close> loop is left.\<close>

definition accounts_after_loop :: "item list \<Rightarrow> id_map \<times> id_map \<times> account_analysis" where
  "accounts_after_loop items =
     accounts_loop items ([], [],
       \<lparr>total = length items, duplicate_plaid_ids = [], by_user = [],
        duplicate_account_ids = [], active = 0, inactive = 0\<rparr>)"

definition transactions_after_loop ::
  "item list \<Rightarrow> id_map \<times> id_map \<times> transaction_analysis" where
  "transactions_after_loop items =
     transactions_loop items ([], [],
       \<lparr>total = length items, duplicate_plaid_ids = [], by_user = [],
        duplicate_transaction_ids = [], by_account = []\<rparr>)"

definition account_id_map :: "item list \<Rightarrow> id_map" where
  "account_id_map items = fst (accounts_after_loop items)"

definition plaid_account_id_map :: "item list \<Rightarrow> id_map" where
  "plaid_account_id_map items = fst (snd (accounts_after_loop items))"

definition transaction_id_map :: "item list \<Rightarrow> id_map" where
  "transaction_id_map items = fst (transactions_after_loop items)"

definition plaid_transaction_id_map :: "item list \<Rightarrow> id_map" where
  "plaid_transaction_id_map items = fst (snd (transactions_after_loop items))"

text \<open>
  The index and the aggregate a loop over one field alone builds with the insertion
  steps of the script. They carry the proofs about the two loops; the reference
  constructions the loops are compared with are defined further down, from the
  items and not from these steps.
\<close>

definition index_insert :: "string \<Rightarrow> item \<Rightarrow> id_map \<Rightarrow> id_map" where
  "index_insert f item m = append_if_truthy m (get_S (get_attr item f)) item"

definition field_index :: "string \<Rightarrow> item list \<Rightarrow> id_map" where
  "field_index f items = fold (index_insert f) items []"

definition aggregate_insert :: "string \<Rightarrow> item \<Rightarrow> counter \<Rightarrow> counter" where
  "aggregate_insert f item m = dd_incr m (get_S_default (get_attr item f) ''N/A'')"

definition field_aggregate :: "string \<Rightarrow> item list \<Rightarrow> counter" where
  "field_aggregate f items = fold (aggregate_insert f) items []"

definition duplicate_groups :: "string \<Rightarrow> item list \<Rightarrow> id_map" where
  "duplicate_groups f items = find_duplicates (field_index f items) []"

section \<open>The reference constructions\<close>

text \<open>The values of a list in the order in which they are first seen.\<close>

definition first_seen :: "'a list \<Rightarrow> 'a list" where
  "first_seen xs = fold (\<lambda>x ks. if x \<in> set ks then ks else ks @ [x]) xs []"

text \<open>The strings the items hold in the field \<open>f\<close>, in scan order, the empty string
  included; an item without the field, or with a value that is not a string, has none.\<close>

definition present_strings :: "string \<Rightarrow> item list \<Rightarrow> string list" where
  "present_strings f items =
     concat (map (\<lambda>i. case get_attr i f of Some (S v) \<Rightarrow> [v] | _ \<Rightarrow> []) items)"

text \<open>
  The index of a field in the words of the design: one traversal of the stream for
  the field, every value an item holds there mapped to the items that hold it, in scan
  order; an item without the field is in no entry.
\<close>

definition spec_index :: "string \<Rightarrow> item list \<Rightarrow> id_map" where
  "spec_index f items =
     map (\<lambda>v. (v, holders f v items)) (first_seen (present_strings f items))"

text \<open>The same index over the non-empty strings only.\<close>

definition nonempty_index :: "string \<Rightarrow> item list \<Rightarrow> id_map" where
  "nonempty_index f items =
     map (\<lambda>v. (v, holders f v items))
       (first_seen (filter (\<lambda>v. v \<noteq> []) (present_strings f items)))"

text \<open>The entries of an index that two or more items share.\<close>

definition shared_entries :: "id_map \<Rightarrow> id_map" where
  "shared_entries m = filter (\<lambda>(v, g). 2 \<le> length g) m"

text \<open>
  The owner aggregate by a traversal of its own. An item is counted under the string
  it holds in the owner field, and under \<open>N/A\<close> when the field is missing or holds a
  value that is not a string. The count of \<open>u\<close> is the number of items that hold the
  string \<open>u\<close>, and for \<open>N/A\<close> the items without a string owner are added.
\<close>

definition no_string :: "string \<Rightarrow> item \<Rightarrow> bool" where
  "no_string f i = (case get_attr i f of Some (S u) \<Rightarrow> False | _ \<Rightarrow> True)"

definition owner_key :: "string \<Rightarrow> item \<Rightarrow> string" where
  "owner_key f i = (case get_attr i f of Some (S u) \<Rightarrow> u | _ \<Rightarrow> ''N/A'')"

definition owner_count :: "string \<Rightarrow> string \<Rightarrow> item list \<Rightarrow> nat" where
  "owner_count f u items =
     length (holders f u items)
       + (if u = ''N/A'' then length (filter (no_string f) items) else 0)"

definition owner_aggregate :: "string \<Rightarrow> item list \<Rightarrow> counter" where
  "owner_aggregate f items =
     map (\<lambda>u. (u, owner_count f u items)) (first_seen (map (owner_key f) items))"

text \<open>
  An owner aggregate \<open>agg\<close> tallies the stream: one entry for a bucket, the counts add up
  to the number of items, and the bucket \<open>u\<close> holds \<open>owner_count f u items\<close> (no entry
  when that is zero).
\<close>

definition tallies :: "string \<Rightarrow> item list \<Rightarrow> counter \<Rightarrow> string \<Rightarrow> bool" where
  "tallies f items agg u =
     (distinct (map fst agg) \<and>
      sum_list (map snd agg) = length items \<and>
      map_of agg u =
        (if owner_count f u items = 0 then None else Some (owner_count f u items)))"

section \<open>Pages, calls and what the backend was asked\<close>

text \<open>
  A sequence of pages as \<open>scan_table\<close> expects it: at least one page, a cursor on
  every page but the last, and none on the last (a missing \<open>LastEvaluatedKey\<close>, or an
  empty one, which the script takes for missing as well).
\<close>

fun well_paged :: "scan_response list \<Rightarrow> bool" where
  "well_paged [] = False"
| "well_paged [p] = (\<not> truthy_key (LastEvaluatedKey p))"
| "well_paged (p # q # ps) = (truthy_key (LastEvaluatedKey p) \<and> well_paged (q # ps))"

text \<open>The start keys of the fetches of these pages: none for the first page, then the
  cursor of the page before.\<close>

definition start_keys :: "scan_response list \<Rightarrow> item option list" where
  "start_keys pages = None # map LastEvaluatedKey (butlast pages)"

text \<open>The start key \<open>scan_table\<close> sends when \<open>last_evaluated_key\<close> is \<open>k\<close>.\<close>

definition sent_key :: "item option \<Rightarrow> item option" where
  "sent_key k = (if truthy_key k then k else None)"

text \<open>The scripted backend after scans of the table \<open>t\<close> with the start keys \<open>keys\<close>
  that leave \<open>rest\<close> of the replies of \<open>t\<close>.\<close>

definition after_scan ::
  "backend \<Rightarrow> string \<Rightarrow> (exn + scan_response) list \<Rightarrow> item option list \<Rightarrow> backend" where
  "after_scan b t rest keys =
     b\<lparr>script := set_script (script b) t rest, calls := calls b @ map (Scan t) keys\<rparr>"

text \<open>A call that scans a table \<open>describe_table\<close> confirms.\<close>

fun scan_of_confirmed :: "backend \<Rightarrow> call \<Rightarrow> bool" where
  "scan_of_confirmed b (Scan t k) = confirmed b t"
| "scan_of_confirmed b (DescribeTable t) = False"

section \<open>Example streams\<close>

text \<open>Three accounts with the ids \<open>A\<close>, \<open>A\<close>, \<open>B\<close>.\<close>

definition accounts_AAB :: "item list" where
  "accounts_AAB =
     [[(''accountId'', S ''A''), (''accountName'', S ''first'')],
      [(''accountId'', S ''A''), (''accountName'', S ''second'')],
      [(''accountId'', S ''B''), (''accountName'', S ''third'')]]"

text \<open>Two accounts entered by hand: each has an id of its own, and the empty string
  as its Plaid id.\<close>

definition manual_accounts :: "item list" where
  "manual_accounts =
     [[(''accountId'', S ''a1''), (''plaidAccountId'', S []), (''accountName'', S ''Cash'')],
      [(''accountId'', S ''a2''), (''plaidAccountId'', S []), (''accountName'', S ''Wallet'')]]"

text \<open>Two transactions whose Plaid id is the empty string.\<close>

definition transactions_empty_id :: "item list" where
  "transactions_empty_id =
     [[(''transactionId'', S ''t1''), (''plaidTransactionId'', S [])],
      [(''transactionId'', S ''t2''), (''plaidTransactionId'', S [])]]"

text \<open>A stream with a duplicated id, an id of its own, an empty id and no id.\<close>

definition accounts_mixed :: "item list" where
  "accounts_mixed =
     [[(''accountId'', S ''A''), (''userId'', S ''u1'')],
      [(''accountId'', S ''B''), (''userId'', S ''u1'')],
      [(''accountId'', S ''A''), (''userId'', S ''u2'')],
      [(''accountId'', S []), (''userId'', S ''u2'')],
      [(''accountName'', S ''no id'')]]"

text \<open>Records of the owners \<open>u1\<close>, \<open>u1\<close>, \<open>u2\<close>.\<close>

definition owners_u1_u1_u2 :: "item list" where
  "owners_u1_u1_u2 =
     [[(''userId'', S ''u1''), (''accountId'', S ''a1'')],
      [(''userId'', S ''u1''), (''accountId'', S ''a2'')],
      [(''userId'', S ''u2''), (''accountId'', S ''a3'')]]"

text \<open>A record whose owner is the string \<open>N/A\<close>, and a record without an owner.\<close>

definition owner_NA_and_absent :: "item list" where
  "owner_NA_and_absent =
     [[(''userId'', S ''N/A''), (''accountId'', S ''a1'')],
      [(''accountId'', S ''a2'')]]"

text \<open>An item with all four identity fields, one whose four identity fields are empty
  strings, and one without any of them.\<close>

definition item_with_ids :: item where
  "item_with_ids =
     [(''accountId'', S ''A''), (''plaidAccountId'', S ''P''),
      (''transactionId'', S ''T''), (''plaidTransactionId'', S ''Q'')]"

definition item_empty_ids :: item where
  "item_empty_ids =
     [(''accountId'', S []), (''plaidAccountId'', S []),
      (''transactionId'', S []), (''plaidTransactionId'', S [])]"

definition item_no_ids :: item where
  "item_no_ids = [(''accountName'', S ''no id'')]"

text \<open>Three accounts on two pages, the first page with a cursor; one transaction.\<close>

definition account_1 :: item where
  "account_1 = [(''accountId'', S ''a1''), (''userId'', S ''u1'')]"

definition account_2 :: item where
  "account_2 = [(''accountId'', S ''a2''), (''userId'', S ''u1'')]"

definition account_3 :: item where
  "account_3 = [(''accountId'', S ''a3''), (''userId'', S ''u2'')]"

definition cursor_1 :: item where
  "cursor_1 = [(''accountId'', S ''a2'')]"

definition transaction_1 :: item where
  "transaction_1 =
     [(''transactionId'', S ''t1''), (''userId'', S ''u1''), (''accountId'', S ''a1'')]"

definition page_1 :: scan_response where
  "page_1 = \<lparr>Items = Some [account_1, account_2], LastEvaluatedKey = Some cursor_1\<rparr>"

definition page_2 :: scan_response where
  "page_2 = \<lparr>Items = Some [account_3], LastEvaluatedKey = None\<rparr>"

definition transactions_page :: scan_response where
  "transactions_page = \<lparr>Items = Some [transaction_1], LastEvaluatedKey = None\<rparr>"

text \<open>
  A run with the default prefix. The tables of the users, the accounts and the
  transactions exist, \<open>describe_table\<close> fails on the goals for another reason, and the
  budgets (not listed) and the audit logs do not exist.
\<close>

definition example_args :: args where
  "example_args = \<lparr>region = ''us-east-1'', table_prefix = ''BudgetBuddy'', output_dir = None\<rparr>"

definition example_catalog :: "(string \<times> (exn + describe_response)) list" where
  "example_catalog =
     [(''BudgetBuddy-Users'', Inr \<lparr>Table = Some \<lparr>ItemCount = Some 2\<rparr>\<rparr>),
      (''BudgetBuddy-Accounts'', Inr \<lparr>Table = Some \<lparr>ItemCount = Some 3\<rparr>\<rparr>),
      (''BudgetBuddy-Transactions'', Inr \<lparr>Table = Some \<lparr>ItemCount = None\<rparr>\<rparr>),
      (''BudgetBuddy-Goals'', Inl (Exception ''AccessDeniedException'')),
      (''BudgetBuddy-AuditLogs'', Inl (ResourceNotFoundException ''Table not found''))]"

definition healthy_backend :: backend where
  "healthy_backend =
     \<lparr>catalog = example_catalog,
      script = [(''BudgetBuddy-Accounts'', [Inr page_1, Inr page_2]),
                (''BudgetBuddy-Transactions'', [Inr transactions_page])],
      calls = []\<rparr>"

text \<open>The same backend, but the fetch of the second page of the accounts raises.\<close>

definition failing_backend :: backend where
  "failing_backend =
     \<lparr>catalog = example_catalog,
      script = [(''BudgetBuddy-Accounts'', [Inr page_1, Inl (Exception ''RequestLimitExceeded'')]),
                (''BudgetBuddy-Transactions'', [Inr transactions_page])],
      calls = []\<rparr>"

text \<open>The failing backend after the probes of the six tables, after the scan of the
  accounts has raised, and at the end of the run.\<close>

definition failing_checked :: backend where
  "failing_checked = failing_backend\<lparr>calls := map DescribeTable (tables_of example_args)\<rparr>"

definition failing_accounts_scanned :: backend where
  "failing_accounts_scanned =
     after_scan failing_checked ''BudgetBuddy-Accounts'' [] [None, Some cursor_1]"

definition failing_run_end :: backend where
  "failing_run_end =
     after_scan failing_accounts_scanned ''BudgetBuddy-Transactions'' [] [None]"

text \<open>A backend whose scan of the transactions raises at once, with its states after
  the probes, after the scan of the accounts and at the end of the run.\<close>

definition broken_transactions_backend :: backend where
  "broken_transactions_backend =
     \<lparr>catalog = example_catalog,
      script = [(''BudgetBuddy-Accounts'', [Inr page_1, Inr page_2]),
                (''BudgetBuddy-Transactions'', [Inl (Exception ''InternalServerError'')])],
      calls = []\<rparr>"

definition broken_checked :: backend where
  "broken_checked =
     broken_transactions_backend\<lparr>calls := map DescribeTable (tables_of example_args)\<rparr>"

definition broken_accounts_scanned :: backend where
  "broken_accounts_scanned =
     after_scan broken_checked ''BudgetBuddy-Accounts'' [] [None, Some cursor_1]"

definition broken_run_end :: backend where
  "broken_run_end =
     after_scan broken_accounts_scanned ''BudgetBuddy-Transactions'' [] [None]"

text \<open>Two accounts whose owner is stored as a number.\<close>

definition numeric_owners :: "item list" where
  "numeric_owners =
     [[(''userId'', N ''7''), (''accountId'', S ''a1'')],
      [(''userId'', N ''7''), (''accountId'', S ''a2'')]]"

text \<open>Owners of the three kinds: two strings, a number, and none.\<close>

definition owners_mixed :: "item list" where
  "owners_mixed =
     [[(''userId'', S ''u1''), (''accountId'', S ''a1'')],
      [(''userId'', N ''7''), (''accountId'', S ''a2'')],
      [(''accountId'', S ''a3'')],
      [(''userId'', S ''u1''), (''accountId'', S ''a4'')]]"

section \<open>Indices and duplicate groups\<close>

lemma dd_append_keys: "fst ` set (dd_append m k x) = insert k (fst ` set m)"
  by (induction m k x rule: dd_append.induct) auto

lemma dd_append_distinct: "distinct (map fst m) \<Longrightarrow> distinct (map fst (dd_append m k x))"
proof (induction m k x rule: dd_append.induct)
  case (1 k v)
  then show ?case by simp
next
  case (2 k' vs m k v)
  then show ?case using dd_append_keys [of m k v] by (auto simp: image_iff)
qed

lemma dd_append_map_of:
  "map_of (dd_append m k x) k' =
     (if k' = k then Some ((case map_of m k of None \<Rightarrow> [] | Some g \<Rightarrow> g) @ [x]) else map_of m k')"
  by (induction m k x rule: dd_append.induct) auto

lemma dd_append_mset:
  "mset (concat (map snd (dd_append m k x))) = add_mset x (mset (concat (map snd m)))"
  by (induction m k x rule: dd_append.induct) auto

lemma index_insert_None: "identity_value f a = None \<Longrightarrow> index_insert f a m = m"
  by (cases "get_S (get_attr a f)")
     (auto simp add: index_insert_def append_if_truthy_def identity_value_def Let_def
        split: if_splits)

lemma index_insert_Some:
  "identity_value f a = Some v \<Longrightarrow> index_insert f a m = dd_append m v a"
  by (cases "get_S (get_attr a f)")
     (auto simp add: index_insert_def append_if_truthy_def identity_value_def Let_def
        split: if_splits)

lemma index_fold_distinct:
  "distinct (map fst m) \<Longrightarrow> distinct (map fst (fold (index_insert f) items m))"
proof (induction items arbitrary: m)
  case Nil
  then show ?case by simp
next
  case (Cons a items)
  show ?case
    by (cases "identity_value f a")
       (simp_all add: Cons index_insert_None index_insert_Some dd_append_distinct)
qed

lemma index_fold_map_of:
  "map_of (fold (index_insert f) items m) v =
     (if sharing f v items = [] then map_of m v
      else Some ((case map_of m v of None \<Rightarrow> [] | Some g \<Rightarrow> g) @ sharing f v items))"
proof (induction items arbitrary: m)
  case Nil
  then show ?case by (simp add: sharing_def)
next
  case (Cons a items)
  show ?case
    by (cases "identity_value f a")
       (simp_all add: Cons index_insert_None index_insert_Some dd_append_map_of sharing_def)
qed

lemma index_fold_mset:
  "mset (concat (map snd (fold (index_insert f) items m))) =
     mset (concat (map snd m)) + mset (filter (\<lambda>i. identity_value f i \<noteq> None) items)"
proof (induction items arbitrary: m)
  case Nil
  then show ?case by simp
next
  case (Cons a items)
  show ?case
    by (cases "identity_value f a")
       (simp_all add: Cons index_insert_None index_insert_Some dd_append_mset)
qed

lemma field_index_distinct: "distinct (map fst (field_index f items))"
  by (simp add: field_index_def index_fold_distinct)

lemma field_index_map_of:
  "map_of (field_index f items) v =
     (if sharing f v items = [] then None else Some (sharing f v items))"
  by (simp add: field_index_def index_fold_map_of)

lemma dict_set_fresh: "k \<notin> fst ` set d \<Longrightarrow> dict_set d k g = d @ [(k, g)]"
  by (induction d k g rule: dict_set.induct) auto

lemma find_duplicates_filter:
  "distinct (map fst (d @ m)) \<Longrightarrow>
   find_duplicates m d = d @ filter (\<lambda>(k, g). length g > 1) m"
proof (induction m arbitrary: d)
  case Nil
  then show ?case by simp
next
  case (Cons a m)
  obtain k g where a: "a = (k, g)" by (cases a)
  have fresh: "k \<notin> fst ` set d" using Cons.prems a by auto
  show ?case
  proof (cases "length g > 1")
    case True
    have "distinct (map fst ((d @ [(k, g)]) @ m))" using Cons.prems a by simp
    from Cons.IH [OF this] True show ?thesis
      by (simp add: a dict_set_fresh [OF fresh])
  next
    case False
    have "distinct (map fst (d @ m))" using Cons.prems a by simp
    from Cons.IH [OF this] False show ?thesis by (simp add: a)
  qed
qed

lemma duplicate_groups_filter:
  "duplicate_groups f items = filter (\<lambda>(k, g). length g > 1) (field_index f items)"
  by (simp add: duplicate_groups_def find_duplicates_filter field_index_distinct)

lemma map_of_filter_snd:
  "distinct (map fst m) \<Longrightarrow>
   map_of (filter (\<lambda>(k, g). P g) m) v =
     (case map_of m v of Some g \<Rightarrow> if P g then Some g else None | None \<Rightarrow> None)"
  by (induction m) (auto simp: map_of_eq_None_iff image_iff split: option.splits)

lemma duplicate_groups_map_of:
  "map_of (duplicate_groups f items) v =
     (if length (sharing f v items) > 1 then Some (sharing f v items) else None)"
  by (auto simp add: duplicate_groups_filter map_of_filter_snd field_index_distinct
        field_index_map_of)

lemma duplicate_groups_distinct: "distinct (map fst (duplicate_groups f items))"
  by (simp add: duplicate_groups_filter distinct_map_filter field_index_distinct)

section \<open>The loops of the two analyses\<close>

lemma accounts_loop_maps:
  "accounts_loop items (a, p, an) = (a', p', an') \<Longrightarrow>
     a' = fold (index_insert ''accountId'') items a \<and>
     p' = fold (index_insert ''plaidAccountId'') items p \<and>
     by_user an' = fold (aggregate_insert ''userId'') items (by_user an) \<and>
     total an' = total an \<and>
     duplicate_account_ids an' = duplicate_account_ids an \<and>
     duplicate_plaid_ids an' = duplicate_plaid_ids an"
proof (induction items arbitrary: a p an)
  case Nil
  then show ?case by simp
next
  case (Cons item items)
  obtain a1 p1 an1 where step: "accounts_step item (a, p, an) = (a1, p1, an1)"
    by (cases "accounts_step item (a, p, an)")
  have s1: "a1 = index_insert ''accountId'' item a"
    and s2: "p1 = index_insert ''plaidAccountId'' item p"
    and s3: "by_user an1 = aggregate_insert ''userId'' item (by_user an)"
    and s4: "total an1 = total an"
    and s5: "duplicate_account_ids an1 = duplicate_account_ids an"
    and s6: "duplicate_plaid_ids an1 = duplicate_plaid_ids an"
    using step
    by (auto simp add: accounts_step_def Let_def index_insert_def aggregate_insert_def
          split: if_splits)
  from Cons.prems step have "accounts_loop items (a1, p1, an1) = (a', p', an')" by simp
  from Cons.IH [OF this] show ?case by (simp add: s1 s2 s3 s4 s5 s6)
qed

lemma transactions_loop_maps:
  "transactions_loop items (a, p, an) = (a', p', an') \<Longrightarrow>
     a' = fold (index_insert ''transactionId'') items a \<and>
     p' = fold (index_insert ''plaidTransactionId'') items p \<and>
     by_user an' = fold (aggregate_insert ''userId'') items (by_user an) \<and>
     by_account an' = fold (aggregate_insert ''accountId'') items (by_account an) \<and>
     total an' = total an \<and>
     duplicate_transaction_ids an' = duplicate_transaction_ids an \<and>
     duplicate_plaid_ids an' = duplicate_plaid_ids an"
proof (induction items arbitrary: a p an)
  case Nil
  then show ?case by simp
next
  case (Cons item items)
  obtain a1 p1 an1 where step: "transactions_step item (a, p, an) = (a1, p1, an1)"
    by (cases "transactions_step item (a, p, an)")
  have s1: "a1 = index_insert ''transactionId'' item a"
    and s2: "p1 = index_insert ''plaidTransactionId'' item p"
    and s3: "by_user an1 = aggregate_insert ''userId'' item (by_user an)"
    and s4: "by_account an1 = aggregate_insert ''accountId'' item (by_account an)"
    and s5: "total an1 = total an"
    and s6: "duplicate_transaction_ids an1 = duplicate_transaction_ids an"
    and s7: "duplicate_plaid_ids an1 = duplicate_plaid_ids an"
    using step
    by (auto simp add: transactions_step_def Let_def index_insert_def aggregate_insert_def)
  from Cons.prems step have "transactions_loop items (a1, p1, an1) = (a', p', an')" by simp
  from Cons.IH [OF this] show ?case by (simp add: s1 s2 s3 s4 s5 s6 s7)
qed

lemma analyze_accounts_fields:
  "duplicate_account_ids (analyze_accounts items) = duplicate_groups ''accountId'' items"
  "duplicate_plaid_ids (analyze_accounts items) = duplicate_groups ''plaidAccountId'' items"
  "by_user (analyze_accounts items) = field_aggregate ''userId'' items"
  "total (analyze_accounts items) = length items"
proof -
  let ?init = "\<lparr>total = length items, duplicate_plaid_ids = [], by_user = [],
                 duplicate_account_ids = [], active = 0, inactive = 0\<rparr>"
  obtain a p an where loop: "accounts_loop items ([], [], ?init) = (a, p, an)"
    by (cases "accounts_loop items ([], [], ?init)")
  note m = accounts_loop_maps [OF loop]
  show "duplicate_account_ids (analyze_accounts items) = duplicate_groups ''accountId'' items"
    using m by (simp add: analyze_accounts_def loop duplicate_groups_def field_index_def)
  show "duplicate_plaid_ids (analyze_accounts items) = duplicate_groups ''plaidAccountId'' items"
    using m by (simp add: analyze_accounts_def loop duplicate_groups_def field_index_def)
  show "by_user (analyze_accounts items) = field_aggregate ''userId'' items"
    using m by (simp add: analyze_accounts_def loop field_aggregate_def)
  show "total (analyze_accounts items) = length items"
    using m by (simp add: analyze_accounts_def loop)
qed

lemma analyze_transactions_fields:
  "duplicate_transaction_ids (analyze_transactions items) =
     duplicate_groups ''transactionId'' items"
  "duplicate_plaid_ids (analyze_transactions items) =
     duplicate_groups ''plaidTransactionId'' items"
  "by_user (analyze_transactions items) = field_aggregate ''userId'' items"
  "by_account (analyze_transactions items) = field_aggregate ''accountId'' items"
  "total (analyze_transactions items) = length items"
proof -
  let ?init = "\<lparr>total = length items, duplicate_plaid_ids = [], by_user = [],
                 duplicate_transaction_ids = [], by_account = []\<rparr>"
  obtain a p an where loop: "transactions_loop items ([], [], ?init) = (a, p, an)"
    by (cases "transactions_loop items ([], [], ?init)")
  note m = transactions_loop_maps [OF loop]
  show "duplicate_transaction_ids (analyze_transactions items) =
     duplicate_groups ''transactionId'' items"
    using m by (simp add: analyze_transactions_def loop duplicate_groups_def field_index_def)
  show "duplicate_plaid_ids (analyze_transactions items) =
     duplicate_groups ''plaidTransactionId'' items"
    using m by (simp add: analyze_transactions_def loop duplicate_groups_def field_index_def)
  show "by_user (analyze_transactions items) = field_aggregate ''userId'' items"
    using m by (simp add: analyze_transactions_def loop field_aggregate_def)
  show "by_account (analyze_transactions items) = field_aggregate ''accountId'' items"
    using m by (simp add: analyze_transactions_def loop field_aggregate_def)
  show "total (analyze_transactions items) = length items"
    using m by (simp add: analyze_transactions_def loop)
qed

section \<open>Owner aggregates\<close>

lemma dd_incr_keys: "fst ` set (dd_incr m k) = insert k (fst ` set m)"
  by (induction m k rule: dd_incr.induct) auto

lemma dd_incr_distinct: "distinct (map fst m) \<Longrightarrow> distinct (map fst (dd_incr m k))"
proof (induction m k rule: dd_incr.induct)
  case (1 k)
  then show ?case by simp
next
  case (2 k' c m k)
  then show ?case using dd_incr_keys [of m k] by (auto simp: image_iff)
qed

lemma dd_incr_sum: "sum_list (map snd (dd_incr m k)) = Suc (sum_list (map snd m))"
  by (induction m k rule: dd_incr.induct) auto

lemma dd_incr_map_of:
  "map_of (dd_incr m k) k' =
     (if k' = k then Some (Suc (case map_of m k of None \<Rightarrow> 0 | Some c \<Rightarrow> c)) else map_of m k')"
  by (induction m k rule: dd_incr.induct) auto

lemma aggregate_insert_bucket: "aggregate_insert f a m = dd_incr m (owner_bucket f a)"
  by (simp add: aggregate_insert_def owner_bucket_def)

lemma aggregate_fold_distinct:
  "distinct (map fst m) \<Longrightarrow> distinct (map fst (fold (aggregate_insert f) items m))"
proof (induction items arbitrary: m)
  case Nil
  then show ?case by simp
next
  case (Cons a items)
  have "distinct (map fst (aggregate_insert f a m))"
    using Cons.prems by (simp only: aggregate_insert_bucket dd_incr_distinct)
  from Cons.IH [OF this] show ?case by simp
qed

lemma aggregate_fold_sum:
  "sum_list (map snd (fold (aggregate_insert f) items m)) = sum_list (map snd m) + length items"
proof (induction items arbitrary: m)
  case Nil
  then show ?case by simp
next
  case (Cons a items)
  have "sum_list (map snd (aggregate_insert f a m)) = Suc (sum_list (map snd m))"
    by (simp only: aggregate_insert_bucket dd_incr_sum)
  with Cons.IH [of "aggregate_insert f a m"] show ?case by simp
qed

lemma aggregate_fold_map_of:
  "map_of (fold (aggregate_insert f) items m) u =
     (if filter (\<lambda>i. owner_bucket f i = u) items = [] then map_of m u
      else Some ((case map_of m u of None \<Rightarrow> 0 | Some c \<Rightarrow> c)
                 + length (filter (\<lambda>i. owner_bucket f i = u) items)))"
proof (induction items arbitrary: m)
  case Nil
  then show ?case by simp
next
  case (Cons a items)
  have step: "map_of (aggregate_insert f a m) k' =
     (if k' = owner_bucket f a then Some (Suc (case map_of m (owner_bucket f a) of None \<Rightarrow> 0 | Some c \<Rightarrow> c))
      else map_of m k')" for k'
    by (simp only: aggregate_insert_bucket dd_incr_map_of)
  show ?case
    using Cons.IH [of "aggregate_insert f a m"] by (simp add: step)
qed

lemma field_aggregate_sum:
  "sum_list (map snd (field_aggregate f items)) = length items"
  by (simp add: field_aggregate_def aggregate_fold_sum)

lemma field_aggregate_distinct: "distinct (map fst (field_aggregate f items))"
  by (simp add: field_aggregate_def aggregate_fold_distinct)

lemma field_aggregate_map_of:
  "map_of (field_aggregate f items) u =
     (if filter (\<lambda>i. owner_bucket f i = u) items = [] then None
      else Some (length (filter (\<lambda>i. owner_bucket f i = u) items)))"
  by (simp add: field_aggregate_def aggregate_fold_map_of)

section \<open>Groups as parts of the stream\<close>

lemma identity_value_Some_iff:
  "identity_value f i = Some v \<longleftrightarrow> get_attr i f = Some (S v) \<and> v \<noteq> []"
proof (cases "get_attr i f")
  case None
  then show ?thesis by (simp add: identity_value_def)
next
  case (Some a)
  then show ?thesis by (cases a) (auto simp add: identity_value_def)
qed

lemma sharing_member:
  "i \<in> set (sharing f v items) \<longleftrightarrow> i \<in> set items \<and> get_attr i f = Some (S v) \<and> v \<noteq> []"
  by (auto simp add: sharing_def identity_value_Some_iff)

lemma field_index_entry:
  "(v, g) \<in> set (field_index f items) \<longleftrightarrow> g = sharing f v items \<and> g \<noteq> []"
  using map_of_eq_Some_iff [OF field_index_distinct, of f items v g]
  by (auto simp add: field_index_map_of split: if_splits)

lemma duplicate_groups_entry:
  "(v, g) \<in> set (duplicate_groups f items) \<longleftrightarrow> g = sharing f v items \<and> length g > 1"
  using map_of_eq_Some_iff [OF duplicate_groups_distinct, of f items v g]
  by (auto simp add: duplicate_groups_map_of split: if_splits)

lemma filter_disjoint_mset:
  "(\<And>x. \<not> (P x \<and> Q x)) \<Longrightarrow>
   mset (filter P xs) + mset (filter Q xs) = mset (filter (\<lambda>x. P x \<or> Q x) xs)"
  by (induction xs) auto

lemma groups_mset:
  "distinct (map fst idx) \<Longrightarrow> (\<And>v g. (v, g) \<in> set idx \<Longrightarrow> g = sharing f v items) \<Longrightarrow>
   mset (concat (map snd idx)) =
     mset (filter (\<lambda>i. \<exists>v \<in> fst ` set idx. identity_value f i = Some v) items)"
proof (induction idx)
  case Nil
  then show ?case by simp
next
  case (Cons a idx)
  obtain v g where a: "a = (v, g)" by (cases a)
  have g: "g = sharing f v items" using Cons.prems(2) [of v g] a by simp
  have fresh: "v \<notin> fst ` set idx" using Cons.prems(1) a by auto
  have ih: "mset (concat (map snd idx)) =
     mset (filter (\<lambda>i. \<exists>v \<in> fst ` set idx. identity_value f i = Some v) items)"
    using Cons.IH Cons.prems by auto
  have disj: "\<not> (identity_value f x = Some v \<and> (\<exists>v \<in> fst ` set idx. identity_value f x = Some v))" for x
    using fresh by auto
  have "mset (concat (map snd (a # idx))) = mset (sharing f v items) + mset (concat (map snd idx))"
    by (simp add: a g)
  also have "\<dots> = mset (filter (\<lambda>i. identity_value f i = Some v) items)
       + mset (filter (\<lambda>i. \<exists>v \<in> fst ` set idx. identity_value f i = Some v) items)"
    by (simp only: ih sharing_def)
  also have "\<dots> = mset (filter (\<lambda>i. identity_value f i = Some v
        \<or> (\<exists>v \<in> fst ` set idx. identity_value f i = Some v)) items)"
    by (rule filter_disjoint_mset) (rule disj)
  also have "\<dots> = mset (filter (\<lambda>i. \<exists>v \<in> fst ` set (a # idx). identity_value f i = Some v) items)"
    by (simp add: a)
  finally show ?case .
qed

lemma after_loop_maps:
  "account_id_map items = field_index ''accountId'' items"
  "plaid_account_id_map items = field_index ''plaidAccountId'' items"
  "by_user (snd (snd (accounts_after_loop items))) = field_aggregate ''userId'' items"
  "transaction_id_map items = field_index ''transactionId'' items"
  "plaid_transaction_id_map items = field_index ''plaidTransactionId'' items"
  "by_user (snd (snd (transactions_after_loop items))) = field_aggregate ''userId'' items"
  "by_account (snd (snd (transactions_after_loop items))) = field_aggregate ''accountId'' items"
proof -
  obtain a p an where la: "accounts_after_loop items = (a, p, an)"
    by (cases "accounts_after_loop items")
  note ma = accounts_loop_maps [OF la [unfolded accounts_after_loop_def]]
  obtain t q tn where lt: "transactions_after_loop items = (t, q, tn)"
    by (cases "transactions_after_loop items")
  note mt = transactions_loop_maps [OF lt [unfolded transactions_after_loop_def]]
  show "account_id_map items = field_index ''accountId'' items"
    using ma by (simp add: account_id_map_def la field_index_def)
  show "plaid_account_id_map items = field_index ''plaidAccountId'' items"
    using ma by (simp add: plaid_account_id_map_def la field_index_def)
  show "by_user (snd (snd (accounts_after_loop items))) = field_aggregate ''userId'' items"
    using ma by (simp add: la field_aggregate_def)
  show "transaction_id_map items = field_index ''transactionId'' items"
    using mt by (simp add: transaction_id_map_def lt field_index_def)
  show "plaid_transaction_id_map items = field_index ''plaidTransactionId'' items"
    using mt by (simp add: plaid_transaction_id_map_def lt field_index_def)
  show "by_user (snd (snd (transactions_after_loop items))) = field_aggregate ''userId'' items"
    using mt by (simp add: lt field_aggregate_def)
  show "by_account (snd (snd (transactions_after_loop items))) = field_aggregate ''accountId'' items"
    using mt by (simp add: lt field_aggregate_def)
qed

lemma duplicate_groups_keys:
  "v \<in> fst ` set (duplicate_groups f items) \<longleftrightarrow> length (sharing f v items) > 1"
proof
  assume "v \<in> fst ` set (duplicate_groups f items)"
  then obtain g where "(v, g) \<in> set (duplicate_groups f items)" by auto
  then show "length (sharing f v items) > 1" by (auto simp add: duplicate_groups_entry)
next
  assume "length (sharing f v items) > 1"
  then have "(v, sharing f v items) \<in> set (duplicate_groups f items)"
    by (simp add: duplicate_groups_entry)
  then show "v \<in> fst ` set (duplicate_groups f items)" by force
qed

lemma sharing_self: "i \<in> set items \<Longrightarrow> identity_value f i = Some v \<Longrightarrow> sharing f v items \<noteq> []"
  by (auto simp add: sharing_def filter_empty_conv)

lemma duplicate_groups_partition: "partition_of f items (duplicate_groups f items)"
proof -
  let ?dups = "duplicate_groups f items"
  let ?D = "\<lambda>i. \<exists>v \<in> fst ` set ?dups. identity_value f i = Some v"
  let ?N = "no_value f"
  let ?U = "unique_value f items"
  have groups: "mset (concat (map snd ?dups)) = mset (filter ?D items)"
    by (rule groups_mset [OF duplicate_groups_distinct]) (simp add: duplicate_groups_entry)
  have dn: "\<not> (?D x \<and> ?N x)" for x by (auto simp add: no_value_def)
  have dnu: "\<not> ((?D x \<or> ?N x) \<and> ?U x)" for x
  proof (cases "identity_value f x")
    case None
    then show ?thesis by (simp add: unique_value_def)
  next
    case (Some v)
    show ?thesis
    proof (cases "length (sharing f v items) = 1")
      case True
      then have "v \<notin> fst ` set ?dups" by (simp add: duplicate_groups_keys)
      then show ?thesis using Some by (auto simp add: no_value_def)
    next
      case False
      then show ?thesis using Some by (simp add: unique_value_def)
    qed
  qed
  have all: "?D i \<or> ?N i \<or> ?U i" if "i \<in> set items" for i
  proof (cases "identity_value f i")
    case None
    then show ?thesis by (simp add: no_value_def)
  next
    case (Some v)
    have "length (sharing f v items) \<noteq> 0" using sharing_self [OF that Some] by simp
    then have "length (sharing f v items) > 1 \<or> length (sharing f v items) = 1" by arith
    then show ?thesis using Some by (auto simp add: unique_value_def duplicate_groups_keys)
  qed
  have "mset (filter ?D items) + mset (filter ?N items) + mset (filter ?U items)
      = mset (filter (\<lambda>x. ?D x \<or> ?N x) items) + mset (filter ?U items)"
    by (simp only: filter_disjoint_mset [of ?D ?N, OF dn])
  also have "\<dots> = mset (filter (\<lambda>x. (?D x \<or> ?N x) \<or> ?U x) items)"
    by (rule filter_disjoint_mset) (rule dnu)
  also have "filter (\<lambda>x. (?D x \<or> ?N x) \<or> ?U x) items = items"
    using all by (intro filter_True) blast
  finally have parts: "mset (concat (map snd ?dups)) + mset (filter ?N items)
      + mset (filter ?U items) = mset items"
    by (simp only: groups)
  have members: "\<forall>(v, g) \<in> set ?dups. \<forall>i \<in> set g. identity_value f i = Some v"
    by (auto simp add: duplicate_groups_entry sharing_def)
  show ?thesis
    unfolding partition_of_def using parts members duplicate_groups_distinct by blast
qed

section \<open>The claims on duplicate detection\<close>

lemmas eval_defs = analyze_accounts_def analyze_transactions_def accounts_step_def
  transactions_step_def Let_def get_attr_def get_S_default_def append_if_truthy_def

text \<open>
  Claim C1, as amended. For every stream and each of the four identity fields of the two
  analyses, the groups of duplicates cut the scanned stream into parts with nothing
  lost and nothing counted twice: the members of all groups of the field, the items
  with no identity value for the field (the field is missing, is not a string, or is
  the empty string) and the items whose identity value no other item shares add up,
  as multisets, to the stream. No value has two groups and every member of a group
  holds the value of its group, so an item is in one group at most.
\<close>

theorem duplicates_partition_stream:
  "partition_of ''accountId'' items (duplicate_account_ids (analyze_accounts items)) \<and>
   partition_of ''plaidAccountId'' items (duplicate_plaid_ids (analyze_accounts items)) \<and>
   partition_of ''transactionId'' items (duplicate_transaction_ids (analyze_transactions items)) \<and>
   partition_of ''plaidTransactionId'' items (duplicate_plaid_ids (analyze_transactions items))"
proof -
  have accounts:
    "duplicate_account_ids (analyze_accounts items) = duplicate_groups ''accountId'' items"
    "duplicate_plaid_ids (analyze_accounts items) = duplicate_groups ''plaidAccountId'' items"
    by (rule analyze_accounts_fields)+
  have transactions:
    "duplicate_transaction_ids (analyze_transactions items) =
       duplicate_groups ''transactionId'' items"
    "duplicate_plaid_ids (analyze_transactions items) =
       duplicate_groups ''plaidTransactionId'' items"
    by (rule analyze_transactions_fields)+
  show ?thesis
    unfolding accounts transactions
    by (intro conjI) (rule duplicate_groups_partition)+
qed

theorem duplicates_partition_stream_witness:
  "duplicate_account_ids (analyze_accounts accounts_mixed) =
     [(''A'', [[(''accountId'', S ''A''), (''userId'', S ''u1'')],
               [(''accountId'', S ''A''), (''userId'', S ''u2'')]])] \<and>
   partition_of ''accountId'' accounts_mixed
     [(''A'', [[(''accountId'', S ''A''), (''userId'', S ''u1'')],
               [(''accountId'', S ''A''), (''userId'', S ''u2'')]])]"
proof -
  have d: "duplicate_account_ids (analyze_accounts accounts_mixed) =
     [(''A'', [[(''accountId'', S ''A''), (''userId'', S ''u1'')],
               [(''accountId'', S ''A''), (''userId'', S ''u2'')]])]"
    by (simp add: accounts_mixed_def eval_defs)
  show ?thesis
    using duplicates_partition_stream [of accounts_mixed] by (simp add: d)
qed

text \<open>
  Claim C1 as stated counts three kinds of records: the members of the groups, the
  records that lack the field and the records whose value of the field is unique. Two
  accounts whose \<open>plaidAccountId\<close> is the empty string are of none of the three kinds
  (the test \<^verbatim>\<open>if plaid_id:\<close> keeps them out of the index), so the three parts do not
  add up to the stream.
\<close>

theorem empty_id_breaks_partition:
  "mset (concat (map snd (duplicate_plaid_ids (analyze_accounts manual_accounts))))
     + mset (filter (lacks_field ''plaidAccountId'') manual_accounts)
     + mset (filter (unique_field ''plaidAccountId'' manual_accounts) manual_accounts)
   \<noteq> mset manual_accounts"
  by (simp add: manual_accounts_def eval_defs lacks_field_def unique_field_def)

lemma analyze_accounts_after_loop:
  "analyze_accounts items =
     (case accounts_after_loop items of
        (a, p, an) \<Rightarrow>
          an\<lparr>duplicate_account_ids := find_duplicates a (duplicate_account_ids an),
             duplicate_plaid_ids := find_duplicates p (duplicate_plaid_ids an)\<rparr>)"
  by (simp add: analyze_accounts_def accounts_after_loop_def Let_def split: prod.splits)

lemma analyze_transactions_after_loop:
  "analyze_transactions items =
     (case transactions_after_loop items of
        (t, p, an) \<Rightarrow>
          an\<lparr>duplicate_transaction_ids := find_duplicates t (duplicate_transaction_ids an),
             duplicate_plaid_ids := find_duplicates p (duplicate_plaid_ids an)\<rparr>)"
  by (simp add: analyze_transactions_def transactions_after_loop_def Let_def split: prod.splits)

lemma sharing_holders: "v \<noteq> [] \<Longrightarrow> sharing f v items = holders f v items"
  by (simp add: sharing_def holders_def identity_value_Some_iff)

lemma sharing_empty_value: "sharing f [] items = []"
  by (simp add: sharing_def identity_value_Some_iff)

lemma duplicate_groups_emitted: "emitted f items (duplicate_groups f items) v"
proof (cases "v = []")
  case True
  then show ?thesis
    by (simp add: emitted_def duplicate_groups_distinct duplicate_groups_map_of
          sharing_empty_value)
next
  case False
  have "(1 < length (holders f v items)) = (2 \<le> length (holders f v items))" by arith
  then show ?thesis using False
    by (simp add: emitted_def duplicate_groups_distinct duplicate_groups_map_of
          sharing_holders del: One_nat_def)
qed

text \<open>
  Claim C2, as amended. For every stream, each of the four identity fields and every
  string \<open>v\<close>: a group is emitted for \<open>v\<close> if and only if \<open>v\<close> is not the empty string and
  at least two records hold it; the group is exactly these records in scan order, and
  no value has two groups. For the accounts with the ids \<open>A\<close>, \<open>A\<close>, \<open>B\<close> the groups are
  the one of \<open>A\<close> with its two records.
\<close>

theorem groups_are_shared_values:
  "emitted ''accountId'' items (duplicate_account_ids (analyze_accounts items)) v \<and>
   emitted ''plaidAccountId'' items (duplicate_plaid_ids (analyze_accounts items)) v \<and>
   emitted ''transactionId'' items (duplicate_transaction_ids (analyze_transactions items)) v \<and>
   emitted ''plaidTransactionId'' items (duplicate_plaid_ids (analyze_transactions items)) v \<and>
   duplicate_account_ids (analyze_accounts accounts_AAB) =
     [(''A'', [[(''accountId'', S ''A''), (''accountName'', S ''first'')],
               [(''accountId'', S ''A''), (''accountName'', S ''second'')]])]"
proof -
  have "duplicate_account_ids (analyze_accounts accounts_AAB) =
     [(''A'', [[(''accountId'', S ''A''), (''accountName'', S ''first'')],
               [(''accountId'', S ''A''), (''accountName'', S ''second'')]])]"
    by (simp add: accounts_AAB_def eval_defs)
  then show ?thesis
    by (simp only: analyze_accounts_fields analyze_transactions_fields duplicate_groups_emitted
          simp_thms)
qed

text \<open>
  Claim C2 as stated has a group for every value that two records share. Two accounts
  share the empty string as their \<open>plaidAccountId\<close>, and no group is emitted.
\<close>

theorem empty_id_shared_without_group:
  "length (holders ''plaidAccountId'' [] manual_accounts) = 2 \<and>
   duplicate_plaid_ids (analyze_accounts manual_accounts) = []"
  by (simp add: manual_accounts_def eval_defs holders_def)

lemma field_index_skips: "skips_missing f items (field_index f items)"
  by (auto simp add: skips_missing_def field_index_entry sharing_member)

lemma duplicate_groups_skips: "skips_missing f items (duplicate_groups f items)"
  by (auto simp add: skips_missing_def duplicate_groups_entry sharing_member)

lemma skips_missing_lacks:
  "skips_missing f items m \<Longrightarrow> lacks_field f r \<Longrightarrow> \<not> in_some_group r m"
  by (fastforce simp add: skips_missing_def lacks_field_def in_some_group_def)

lemma lacks_no_value: "lacks_field f r \<Longrightarrow> identity_value f r = None"
  by (simp add: lacks_field_def identity_value_def)

lemma empty_no_value: "get_attr r f = Some (S []) \<Longrightarrow> identity_value f r = None"
  by (simp add: identity_value_def)

lemma field_index_drop:
  "identity_value f r = None \<Longrightarrow> field_index f (xs @ r # ys) = field_index f (xs @ ys)"
  by (simp add: field_index_def index_insert_None)

lemma duplicate_groups_drop:
  "identity_value f r = None \<Longrightarrow> duplicate_groups f (xs @ r # ys) = duplicate_groups f (xs @ ys)"
  by (simp add: duplicate_groups_def field_index_drop)

lemma field_index_leaves_out: "leaves_out f items r (field_index f items)"
  using skips_missing_lacks [OF field_index_skips]
  by (simp add: leaves_out_def field_index_skips)

lemma duplicate_groups_leaves_out: "leaves_out f items r (duplicate_groups f items)"
  using skips_missing_lacks [OF duplicate_groups_skips]
  by (simp add: leaves_out_def duplicate_groups_skips)

text \<open>
  Claim C3. For every stream and each of the four identity fields, the index of the
  field (the local map when the loop is left) and the groups of duplicates leave out
  the records without the field: a record that lacks the field is a member of no
  entry, every entry has members, and every member of an entry is a scanned record
  that holds the key of the entry as its string value of the field. So no entry
  stands for a missing value under a made-up key.
\<close>

theorem missing_field_not_indexed:
  "leaves_out ''accountId'' items r (account_id_map items) \<and>
   leaves_out ''accountId'' items r (duplicate_account_ids (analyze_accounts items)) \<and>
   leaves_out ''plaidAccountId'' items r (plaid_account_id_map items) \<and>
   leaves_out ''plaidAccountId'' items r (duplicate_plaid_ids (analyze_accounts items)) \<and>
   leaves_out ''transactionId'' items r (transaction_id_map items) \<and>
   leaves_out ''transactionId'' items r (duplicate_transaction_ids (analyze_transactions items)) \<and>
   leaves_out ''plaidTransactionId'' items r (plaid_transaction_id_map items) \<and>
   leaves_out ''plaidTransactionId'' items r (duplicate_plaid_ids (analyze_transactions items))"
  by (simp only: after_loop_maps analyze_accounts_fields analyze_transactions_fields
        field_index_leaves_out duplicate_groups_leaves_out simp_thms)

theorem missing_field_not_indexed_witness:
  "lacks_field ''accountId'' item_no_ids \<and>
   lacks_field ''plaidAccountId'' item_no_ids \<and>
   lacks_field ''transactionId'' item_no_ids \<and>
   lacks_field ''plaidTransactionId'' item_no_ids \<and>
   account_id_map [item_with_ids, item_no_ids, item_with_ids] =
     [(''A'', [item_with_ids, item_with_ids])] \<and>
   duplicate_account_ids (analyze_accounts [item_with_ids, item_no_ids, item_with_ids]) =
     [(''A'', [item_with_ids, item_with_ids])] \<and>
   duplicate_plaid_ids (analyze_transactions [item_with_ids, item_no_ids, item_with_ids]) =
     [(''Q'', [item_with_ids, item_with_ids])] \<and>
   \<not> in_some_group item_no_ids (account_id_map [item_with_ids, item_no_ids, item_with_ids]) \<and>
   \<not> in_some_group item_no_ids
       (duplicate_account_ids (analyze_accounts [item_with_ids, item_no_ids, item_with_ids])) \<and>
   \<not> in_some_group item_no_ids
       (plaid_account_id_map [item_with_ids, item_no_ids, item_with_ids]) \<and>
   \<not> in_some_group item_no_ids
       (duplicate_plaid_ids (analyze_accounts [item_with_ids, item_no_ids, item_with_ids])) \<and>
   \<not> in_some_group item_no_ids
       (transaction_id_map [item_with_ids, item_no_ids, item_with_ids]) \<and>
   \<not> in_some_group item_no_ids
       (duplicate_transaction_ids
          (analyze_transactions [item_with_ids, item_no_ids, item_with_ids])) \<and>
   \<not> in_some_group item_no_ids
       (plaid_transaction_id_map [item_with_ids, item_no_ids, item_with_ids]) \<and>
   \<not> in_some_group item_no_ids
       (duplicate_plaid_ids (analyze_transactions [item_with_ids, item_no_ids, item_with_ids]))"
proof -
  have l: "lacks_field ''accountId'' item_no_ids" "lacks_field ''plaidAccountId'' item_no_ids"
    "lacks_field ''transactionId'' item_no_ids" "lacks_field ''plaidTransactionId'' item_no_ids"
    by (simp_all add: lacks_field_def get_attr_def item_no_ids_def)
  have e: "account_id_map [item_with_ids, item_no_ids, item_with_ids] =
     [(''A'', [item_with_ids, item_with_ids])]"
    "duplicate_account_ids (analyze_accounts [item_with_ids, item_no_ids, item_with_ids]) =
     [(''A'', [item_with_ids, item_with_ids])]"
    "duplicate_plaid_ids (analyze_transactions [item_with_ids, item_no_ids, item_with_ids]) =
     [(''Q'', [item_with_ids, item_with_ids])]"
    by (simp_all add: account_id_map_def accounts_after_loop_def eval_defs item_no_ids_def
          item_with_ids_def)
  have "\<not> in_some_group item_no_ids [(''A'', [item_with_ids, item_with_ids])]"
    "\<not> in_some_group item_no_ids [(''Q'', [item_with_ids, item_with_ids])]"
    using missing_field_not_indexed [of "[item_with_ids, item_no_ids, item_with_ids]" item_no_ids] l
    unfolding leaves_out_def e by simp_all
  then show ?thesis
    using missing_field_not_indexed [of "[item_with_ids, item_no_ids, item_with_ids]" item_no_ids] l
    unfolding leaves_out_def e by simp
qed

lemma empty_like_missing:
  assumes "get_attr r f = Some (S [])" and "lacks_field f r'"
  shows "field_index f (xs @ r # ys) = field_index f (xs @ r' # ys)"
    and "duplicate_groups f (xs @ r # ys) = duplicate_groups f (xs @ r' # ys)"
  using empty_no_value [OF assms(1)] lacks_no_value [OF assms(2)]
  by (simp_all add: field_index_drop duplicate_groups_drop)

lemma no_group_of_empty_string: "map_of (duplicate_groups f items) [] = None"
  by (simp add: duplicate_groups_map_of sharing_empty_value)

text \<open>
  Claim C9. For every stream and each of the four identity fields, a record whose field
  is the empty string is treated as a record that lacks the field: putting the one
  in the place of the other changes neither the index of the field nor its groups
  of duplicates. The empty string has no group, also when two records carry it.
\<close>

theorem empty_string_is_missing:
  "(get_attr r ''accountId'' = Some (S []) \<and> lacks_field ''accountId'' r' \<longrightarrow>
      account_id_map (xs @ r # ys) = account_id_map (xs @ r' # ys) \<and>
      duplicate_account_ids (analyze_accounts (xs @ r # ys)) =
        duplicate_account_ids (analyze_accounts (xs @ r' # ys))) \<and>
   (get_attr r ''plaidAccountId'' = Some (S []) \<and> lacks_field ''plaidAccountId'' r' \<longrightarrow>
      plaid_account_id_map (xs @ r # ys) = plaid_account_id_map (xs @ r' # ys) \<and>
      duplicate_plaid_ids (analyze_accounts (xs @ r # ys)) =
        duplicate_plaid_ids (analyze_accounts (xs @ r' # ys))) \<and>
   (get_attr r ''transactionId'' = Some (S []) \<and> lacks_field ''transactionId'' r' \<longrightarrow>
      transaction_id_map (xs @ r # ys) = transaction_id_map (xs @ r' # ys) \<and>
      duplicate_transaction_ids (analyze_transactions (xs @ r # ys)) =
        duplicate_transaction_ids (analyze_transactions (xs @ r' # ys))) \<and>
   (get_attr r ''plaidTransactionId'' = Some (S []) \<and> lacks_field ''plaidTransactionId'' r' \<longrightarrow>
      plaid_transaction_id_map (xs @ r # ys) = plaid_transaction_id_map (xs @ r' # ys) \<and>
      duplicate_plaid_ids (analyze_transactions (xs @ r # ys)) =
        duplicate_plaid_ids (analyze_transactions (xs @ r' # ys))) \<and>
   map_of (duplicate_account_ids (analyze_accounts items)) [] = None \<and>
   map_of (duplicate_plaid_ids (analyze_accounts items)) [] = None \<and>
   map_of (duplicate_transaction_ids (analyze_transactions items)) [] = None \<and>
   map_of (duplicate_plaid_ids (analyze_transactions items)) [] = None \<and>
   duplicate_plaid_ids (analyze_accounts manual_accounts) = [] \<and>
   duplicate_plaid_ids (analyze_transactions transactions_empty_id) = []"
proof -
  have ex: "duplicate_plaid_ids (analyze_accounts manual_accounts) = []"
    "duplicate_plaid_ids (analyze_transactions transactions_empty_id) = []"
    by (simp_all add: manual_accounts_def transactions_empty_id_def eval_defs)
  show ?thesis
    unfolding after_loop_maps analyze_accounts_fields analyze_transactions_fields
    using ex [unfolded analyze_accounts_fields analyze_transactions_fields]
    by (auto simp add: no_group_of_empty_string empty_like_missing)
qed

theorem empty_string_is_missing_witness:
  "get_attr item_empty_ids ''accountId'' = Some (S []) \<and>
   get_attr item_empty_ids ''plaidAccountId'' = Some (S []) \<and>
   get_attr item_empty_ids ''transactionId'' = Some (S []) \<and>
   get_attr item_empty_ids ''plaidTransactionId'' = Some (S []) \<and>
   lacks_field ''accountId'' item_no_ids \<and>
   lacks_field ''plaidAccountId'' item_no_ids \<and>
   lacks_field ''transactionId'' item_no_ids \<and>
   lacks_field ''plaidTransactionId'' item_no_ids \<and>
   duplicate_account_ids (analyze_accounts ([item_with_ids] @ item_empty_ids # [item_with_ids])) =
     duplicate_account_ids (analyze_accounts ([item_with_ids] @ item_no_ids # [item_with_ids])) \<and>
   duplicate_plaid_ids (analyze_accounts ([item_with_ids] @ item_empty_ids # [item_with_ids])) =
     duplicate_plaid_ids (analyze_accounts ([item_with_ids] @ item_no_ids # [item_with_ids])) \<and>
   duplicate_transaction_ids
       (analyze_transactions ([item_with_ids] @ item_empty_ids # [item_with_ids])) =
     duplicate_transaction_ids
       (analyze_transactions ([item_with_ids] @ item_no_ids # [item_with_ids])) \<and>
   duplicate_plaid_ids (analyze_transactions ([item_with_ids] @ item_empty_ids # [item_with_ids])) =
     duplicate_plaid_ids (analyze_transactions ([item_with_ids] @ item_no_ids # [item_with_ids]))"
proof -
  have h: "get_attr item_empty_ids ''accountId'' = Some (S [])"
    "get_attr item_empty_ids ''plaidAccountId'' = Some (S [])"
    "get_attr item_empty_ids ''transactionId'' = Some (S [])"
    "get_attr item_empty_ids ''plaidTransactionId'' = Some (S [])"
    "lacks_field ''accountId'' item_no_ids"
    "lacks_field ''plaidAccountId'' item_no_ids"
    "lacks_field ''transactionId'' item_no_ids"
    "lacks_field ''plaidTransactionId'' item_no_ids"
    by (simp_all add: get_attr_def lacks_field_def item_empty_ids_def item_no_ids_def)
  show ?thesis
    using empty_string_is_missing
      [of item_empty_ids item_no_ids "[item_with_ids]" "[item_with_ids]"] h
    by simp
qed

section \<open>The claims on the owner aggregates\<close>

lemma owner_bucket_present: "get_attr i f = Some (S u) \<Longrightarrow> owner_bucket f i = u"
  by (simp add: owner_bucket_def get_S_default_def)

lemma owner_bucket_absent: "lacks_field f i \<Longrightarrow> owner_bucket f i = ''N/A''"
  by (simp add: owner_bucket_def get_S_default_def lacks_field_def)

lemma field_aggregate_same_bucket:
  "owner_bucket f r = owner_bucket f r' \<Longrightarrow>
   field_aggregate f (xs @ r # ys) = field_aggregate f (xs @ r' # ys)"
  by (simp add: field_aggregate_def aggregate_insert_bucket)

lemma NA_like_absent:
  assumes "get_attr r f = Some (S ''N/A'')" and "lacks_field f r'"
  shows "field_aggregate f (xs @ r # ys) = field_aggregate f (xs @ r' # ys)"
  using owner_bucket_present [OF assms(1)] owner_bucket_absent [OF assms(2)]
  by (simp add: field_aggregate_same_bucket)

lemma absent_in_NA_bucket:
  assumes "lacks_field f r'"
  shows "map_of (field_aggregate f (xs @ r' # ys)) ''N/A'' =
           Some (bucket_count f ''N/A'' (xs @ r' # ys))"
    and "0 < bucket_count f ''N/A'' (xs @ r' # ys)"
  using owner_bucket_absent [OF assms]
  by (simp_all add: field_aggregate_map_of bucket_count_def)

text \<open>
  Claim C10. The bucket of a record without the owner field is the string \<open>N/A\<close>, and it
  is the bucket of a record whose owner field holds the string \<open>N/A\<close> as well: putting
  the one in the place of the other leaves the aggregate as it is, so the aggregate
  cannot tell the two apart. A record with the owner \<open>N/A\<close> and a record without an
  owner give the one entry \<open>{N/A: 2}\<close>.
\<close>

theorem unknown_owner_is_NA:
  "(get_attr r ''userId'' = Some (S ''N/A'') \<and> lacks_field ''userId'' r' \<longrightarrow>
      by_user (analyze_accounts (xs @ r # ys)) = by_user (analyze_accounts (xs @ r' # ys)) \<and>
      by_user (analyze_transactions (xs @ r # ys)) =
        by_user (analyze_transactions (xs @ r' # ys)) \<and>
      map_of (by_user (analyze_accounts (xs @ r' # ys))) ''N/A'' =
        Some (bucket_count ''userId'' ''N/A'' (xs @ r' # ys)) \<and>
      map_of (by_user (analyze_transactions (xs @ r' # ys))) ''N/A'' =
        Some (bucket_count ''userId'' ''N/A'' (xs @ r' # ys)) \<and>
      0 < bucket_count ''userId'' ''N/A'' (xs @ r' # ys)) \<and>
   (get_attr r ''accountId'' = Some (S ''N/A'') \<and> lacks_field ''accountId'' r' \<longrightarrow>
      by_account (analyze_transactions (xs @ r # ys)) =
        by_account (analyze_transactions (xs @ r' # ys)) \<and>
      map_of (by_account (analyze_transactions (xs @ r' # ys))) ''N/A'' =
        Some (bucket_count ''accountId'' ''N/A'' (xs @ r' # ys)) \<and>
      0 < bucket_count ''accountId'' ''N/A'' (xs @ r' # ys)) \<and>
   by_user (analyze_accounts owner_NA_and_absent) = [(''N/A'', 2)] \<and>
   by_user (analyze_transactions owner_NA_and_absent) = [(''N/A'', 2)]"
proof -
  have ex: "by_user (analyze_accounts owner_NA_and_absent) = [(''N/A'', 2)]"
    "by_user (analyze_transactions owner_NA_and_absent) = [(''N/A'', 2)]"
    by (simp_all add: owner_NA_and_absent_def eval_defs)
  show ?thesis
    unfolding ex
    by (simp add: analyze_accounts_fields analyze_transactions_fields NA_like_absent
          absent_in_NA_bucket)
qed

theorem unknown_owner_is_NA_witness:
  "get_attr [(''userId'', S ''N/A''), (''accountId'', S ''N/A'')] ''userId'' = Some (S ''N/A'') \<and>
   get_attr [(''userId'', S ''N/A''), (''accountId'', S ''N/A'')] ''accountId'' = Some (S ''N/A'') \<and>
   lacks_field ''userId'' [] \<and> lacks_field ''accountId'' [] \<and>
   by_user (analyze_accounts ([] @ [(''userId'', S ''N/A''), (''accountId'', S ''N/A'')] # [])) =
     by_user (analyze_accounts ([] @ [] # [])) \<and>
   by_account
       (analyze_transactions ([] @ [(''userId'', S ''N/A''), (''accountId'', S ''N/A'')] # [])) =
     by_account (analyze_transactions ([] @ [] # [])) \<and>
   map_of (by_user (analyze_accounts ([] @ [] # []))) ''N/A'' = Some 1"
proof -
  have h: "get_attr [(''userId'', S ''N/A''), (''accountId'', S ''N/A'')] ''userId'' = Some (S ''N/A'')"
    "get_attr [(''userId'', S ''N/A''), (''accountId'', S ''N/A'')] ''accountId'' = Some (S ''N/A'')"
    "lacks_field ''userId'' []" "lacks_field ''accountId'' []"
    by (simp_all add: get_attr_def lacks_field_def)
  have n: "bucket_count ''userId'' ''N/A'' ([] @ [] # []) = 1"
    by (simp add: bucket_count_def owner_bucket_def get_attr_def get_S_default_def)
  show ?thesis
    using unknown_owner_is_NA
      [of "[(''userId'', S ''N/A''), (''accountId'', S ''N/A'')]" "[]" "[]" "[]"] h n
    by simp
qed

section \<open>The claim on the scan\<close>

lemma set_script_map_of: "map_of (set_script m t rs) t' = (if t' = t then Some rs else map_of m t')"
  by (induction m t rs rule: set_script.induct) auto

lemma set_script_twice: "set_script (set_script m t a) t b = set_script m t b"
  by (induction m t a rule: set_script.induct) auto

lemma scan_loop_step_page:
  assumes "map_of (script b) t = Some (Inr p # rs)"
  shows "scan_loop backend_client b t items key =
     (if \<not> truthy_key (LastEvaluatedKey p)
      then Some (Inr (items @ page_items p), after_scan b t rs [sent_key key])
      else scan_loop backend_client (after_scan b t rs [sent_key key]) t
             (items @ page_items p) (LastEvaluatedKey p))"
  by (subst scan_loop.simps)
     (simp add: backend_client_def backend_scan_def assms page_items_def after_scan_def
        sent_key_def Let_def)

lemma scan_loop_step_error:
  assumes "map_of (script b) t = Some (Inl e # rs)"
  shows "scan_loop backend_client b t items key =
     Some (Inl e, after_scan b t rs [sent_key key])"
  by (subst scan_loop.simps)
     (simp add: backend_client_def backend_scan_def assms after_scan_def sent_key_def)

lemma after_scan_script: "map_of (script (after_scan b t rs ks)) t = Some rs"
  by (simp add: after_scan_def set_script_map_of)

lemma after_scan_twice:
  "after_scan (after_scan b t rs ks) t rs' ks' = after_scan b t rs' (ks @ ks')"
  by (simp add: after_scan_def set_script_twice)

lemma scan_loop_pages:
  "well_paged pages \<Longrightarrow> map_of (script b) t = Some (map Inr pages @ rest) \<Longrightarrow>
   scan_loop backend_client b t items key =
     Some (Inr (items @ concat (map page_items pages)),
           after_scan b t rest (sent_key key # map LastEvaluatedKey (butlast pages)))"
proof (induction pages arbitrary: b items key rule: well_paged.induct)
  case 1
  then show ?case by simp
next
  case (2 p)
  then show ?case by (simp add: scan_loop_step_page [of b t p rest])
next
  case (3 p q ps)
  let ?b1 = "after_scan b t (map Inr (q # ps) @ rest) [sent_key key]"
  have wp: "well_paged (q # ps)" and cur: "truthy_key (LastEvaluatedKey p)"
    using "3.prems"(1) by simp_all
  have s1: "map_of (script ?b1) t = Some (map Inr (q # ps) @ rest)"
    by (rule after_scan_script)
  have sk: "sent_key (LastEvaluatedKey p) = LastEvaluatedKey p"
    using cur by (simp add: sent_key_def)
  have "scan_loop backend_client b t items key =
      scan_loop backend_client ?b1 t (items @ page_items p) (LastEvaluatedKey p)"
    using "3.prems"(2) cur by (simp add: scan_loop_step_page [of b t p "map Inr (q # ps) @ rest"])
  also have "\<dots> = Some (Inr ((items @ page_items p) @ concat (map page_items (q # ps))),
      after_scan ?b1 t rest
        (sent_key (LastEvaluatedKey p) # map LastEvaluatedKey (butlast (q # ps))))"
    by (rule "3.IH" [OF wp s1])
  finally show ?case by (simp add: after_scan_twice sk)
qed

lemma length_start_keys: "well_paged pages \<Longrightarrow> length (start_keys pages) = length pages"
  by (cases pages) (simp_all add: start_keys_def)

text \<open>
  Claim C5. Let the scripted backend hold, for a table, a well-paged sequence of pages
  as its next replies. Then \<open>scan_table\<close> returns: its result is the items of all pages,
  each once and in order, and the count it prints is the sum of the page lengths; it
  has fetched once for each page, the first time without a start key and then with
  the cursor of the page before; and it has used up these pages and no reply after
  them.
\<close>

theorem scan_table_reads_every_page:
  assumes "map_of (script b) t = Some (map Inr pages @ rest)" and "well_paged pages"
  shows "scan_table backend_client b t =
           Some (Inr (concat (map page_items pages)),
                 after_scan b t rest (start_keys pages),
                 [Scanning t, Found (sum_list (map (\<lambda>p. length (page_items p)) pages))]) \<and>
         length (start_keys pages) = length pages"
proof -
  have "scan_loop backend_client b t [] None =
     Some (Inr (concat (map page_items pages)), after_scan b t rest (start_keys pages))"
    using scan_loop_pages [OF assms(2) assms(1), of "[]" None]
    by (simp add: start_keys_def sent_key_def)
  then show ?thesis
    by (simp add: scan_table_def length_start_keys [OF assms(2)] length_concat comp_def)
qed

theorem scan_table_reads_every_page_witness:
  "map_of (script healthy_backend) ''BudgetBuddy-Accounts'' = Some (map Inr [page_1, page_2] @ []) \<and>
   well_paged [page_1, page_2] \<and>
   scan_table backend_client healthy_backend ''BudgetBuddy-Accounts'' =
     Some (Inr [account_1, account_2, account_3],
           after_scan healthy_backend ''BudgetBuddy-Accounts'' [] [None, Some cursor_1],
           [Scanning ''BudgetBuddy-Accounts'', Found 3]) \<and>
   length (start_keys [page_1, page_2]) = 2"
proof -
  have h1: "map_of (script healthy_backend) ''BudgetBuddy-Accounts'' =
      Some (map Inr [page_1, page_2] @ [])"
    by (simp add: healthy_backend_def)
  have h2: "well_paged [page_1, page_2]"
    by (simp add: page_1_def page_2_def cursor_1_def)
  show ?thesis
    using scan_table_reads_every_page [OF h1 h2] h1 h2
    by (simp add: page_items_def start_keys_def page_1_def page_2_def)
qed

section \<open>The claims on the run over the tables\<close>

lemma confirmed_calls: "confirmed (b\<lparr>calls := x\<rparr>) = confirmed b"
  by (rule ext) (simp add: confirmed_def)

lemma check_line_calls: "check_line (b\<lparr>calls := x\<rparr>) = check_line b"
  by (rule ext) (simp add: check_line_def)

lemma check_table_backend:
  "check_table backend_client b t =
     (confirmed b t, check_line b t, b\<lparr>calls := calls b @ [DescribeTable t]\<rparr>)"
  by (simp add: check_table_def backend_client_def backend_describe_table_def confirmed_def
        check_line_def split: option.splits sum.splits exn.splits)

lemma check_tables_backend:
  "check_tables backend_client b tables ex out =
     (ex @ filter (confirmed b) tables,
      b\<lparr>calls := calls b @ map DescribeTable tables\<rparr>,
      out @ map (check_line b) tables)"
proof (induction tables arbitrary: b ex out)
  case Nil
  then show ?case by simp
next
  case (Cons t tables)
  show ?case
    by (simp add: check_table_backend Cons confirmed_calls check_line_calls)
qed

lemma scan_loop_no_reply:
  assumes "map_of (script b) t = None \<or> map_of (script b) t = Some []"
  shows "scan_loop backend_client b t items key =
     Some (Inl (Exception ''no reply scripted''), b\<lparr>calls := calls b @ [Scan t (sent_key key)]\<rparr>)"
  using assms
  by (subst scan_loop.simps)
     (auto simp add: backend_client_def backend_scan_def sent_key_def)

lemma scan_loop_backend_script:
  "map_of (script b) t = Some rs \<Longrightarrow>
   \<exists>r b'. scan_loop backend_client b t items key = Some (r, b') \<and>
          catalog b' = catalog b \<and> (\<exists>ks. calls b' = calls b @ map (Scan t) ks)"
proof (induction rs arbitrary: b items key)
  case Nil
  have "calls b @ [Scan t (sent_key key)] = calls b @ map (Scan t) [sent_key key]" by simp
  then show ?case using Nil by (auto simp add: scan_loop_no_reply simp del: list.map)
next
  case (Cons a rs)
  show ?case
  proof (cases a)
    case (Inl e)
    have "calls (after_scan b t rs [sent_key key]) = calls b @ map (Scan t) [sent_key key]"
      by (simp add: after_scan_def)
    then show ?thesis
      using Cons.prems Inl
      by (auto simp add: scan_loop_step_error [of b t e rs] after_scan_def simp del: list.map)
  next
    case (Inr p)
    let ?b1 = "after_scan b t rs [sent_key key]"
    have step: "scan_loop backend_client b t items key =
       (if \<not> truthy_key (LastEvaluatedKey p)
        then Some (Inr (items @ page_items p), ?b1)
        else scan_loop backend_client ?b1 t (items @ page_items p) (LastEvaluatedKey p))"
      using Cons.prems Inr by (simp add: scan_loop_step_page [of b t p rs])
    have c1: "catalog ?b1 = catalog b" and k1: "calls ?b1 = calls b @ map (Scan t) [sent_key key]"
      by (simp_all add: after_scan_def)
    show ?thesis
    proof (cases "truthy_key (LastEvaluatedKey p)")
      case False
      then show ?thesis using step c1 k1 by (auto simp del: list.map)
    next
      case True
      obtain r b' ks where rec:
        "scan_loop backend_client ?b1 t (items @ page_items p) (LastEvaluatedKey p) = Some (r, b')"
        "catalog b' = catalog ?b1" "calls b' = calls ?b1 @ map (Scan t) ks"
        using Cons.IH [OF after_scan_script, of b "[sent_key key]" "items @ page_items p" "LastEvaluatedKey p"]
        by blast
      have "calls b' = calls b @ map (Scan t) (sent_key key # ks)"
        using rec(3) k1 by simp
      then show ?thesis using step True rec(1) rec(2) c1 by (auto simp del: list.map)
    qed
  qed
qed

lemma scan_loop_backend_total:
  "\<exists>r b'. scan_loop backend_client b t items key = Some (r, b') \<and>
          catalog b' = catalog b \<and> (\<exists>ks. calls b' = calls b @ map (Scan t) ks)"
proof (cases "map_of (script b) t")
  case None
  have "calls b @ [Scan t (sent_key key)] = calls b @ map (Scan t) [sent_key key]" by simp
  then show ?thesis using None by (auto simp add: scan_loop_no_reply simp del: list.map)
next
  case (Some rs)
  then show ?thesis by (rule scan_loop_backend_script)
qed

lemma scan_table_backend_total:
  "\<exists>r b' out. scan_table backend_client b t = Some (r, b', out) \<and>
          catalog b' = catalog b \<and> (\<exists>ks. calls b' = calls b @ map (Scan t) ks)"
proof -
  obtain r b' where l: "scan_loop backend_client b t [] None = Some (r, b')"
    "catalog b' = catalog b" "\<exists>ks. calls b' = calls b @ map (Scan t) ks"
    using scan_loop_backend_total [of b t "[]" None] by blast
  show ?thesis
    by (cases r) (use l in \<open>auto simp add: scan_table_def\<close>)
qed

lemma accounts_stage_backend:
  "\<exists>b' out. except_exception w (accounts_try backend_client b a) = Some (b', out) \<and>
     catalog b' = catalog b \<and>
     (\<exists>ks. calls b' = calls b @ map (Scan (table_prefix a @ ''-Accounts'')) ks)"
proof -
  obtain r b' out where s: "scan_table backend_client b (table_prefix a @ ''-Accounts'') = Some (r, b', out)"
    "catalog b' = catalog b"
    "\<exists>ks. calls b' = calls b @ map (Scan (table_prefix a @ ''-Accounts'')) ks"
    using scan_table_backend_total [of b "table_prefix a @ ''-Accounts''"] by blast
  show ?thesis
    by (cases r) (use s in \<open>auto simp add: accounts_try_def except_exception_def\<close>)
qed

lemma transactions_stage_backend:
  "\<exists>b' out. except_exception w (transactions_try backend_client b a) = Some (b', out) \<and>
     catalog b' = catalog b \<and>
     (\<exists>ks. calls b' = calls b @ map (Scan (table_prefix a @ ''-Transactions'')) ks)"
proof -
  obtain r b' out where s: "scan_table backend_client b (table_prefix a @ ''-Transactions'') = Some (r, b', out)"
    "catalog b' = catalog b"
    "\<exists>ks. calls b' = calls b @ map (Scan (table_prefix a @ ''-Transactions'')) ks"
    using scan_table_backend_total [of b "table_prefix a @ ''-Transactions''"] by blast
  show ?thesis
    by (cases r) (use s in \<open>auto simp add: transactions_try_def except_exception_def\<close>)
qed

lemma scans_of_confirmed: "confirmed b t \<Longrightarrow> list_all (scan_of_confirmed b) (map (Scan t) ks)"
  by (induction ks) simp_all

lemma main_backend:
  "\<exists>b' rest scans.
     main backend_client b a =
       Some (b', [Header ''BudgetBuddy Database Review'', Header ''Step 1: Checking Tables'']
                 @ map (check_line b) (tables_of a)
                 @ Header ''Step 2: Analyzing Tables'' # rest) \<and>
     calls b' = calls b @ map DescribeTable (tables_of a) @ scans \<and>
     list_all (scan_of_confirmed b) scans"
proof -
  let ?acc = "table_prefix a @ ''-Accounts''"
  let ?trn = "table_prefix a @ ''-Transactions''"
  let ?ex = "filter (confirmed b) (tables_of a)"
  let ?b1 = "b\<lparr>calls := calls b @ map DescribeTable (tables_of a)\<rparr>"
  have chk: "check_tables backend_client b (tables_of a) [] [] =
      (?ex, ?b1, map (check_line b) (tables_of a))"
    by (simp add: check_tables_backend)
  obtain b2 out2 s2 where st2:
    "(if ?acc \<in> set ?ex
      then map_option (\<lambda>(c', out). (c', Header ''Accounts Analysis'' # out))
             (except_exception ''accounts'' (accounts_try backend_client ?b1 a))
      else Some (?b1, [])) = Some (b2, out2)"
    "catalog b2 = catalog b" "calls b2 = calls ?b1 @ s2" "list_all (scan_of_confirmed b) s2"
  proof (cases "?acc \<in> set ?ex")
    case True
    then have conf: "confirmed b ?acc" by simp
    obtain b' out ks where "except_exception ''accounts'' (accounts_try backend_client ?b1 a) = Some (b', out)"
      "catalog b' = catalog ?b1" "calls b' = calls ?b1 @ map (Scan ?acc) ks"
      using accounts_stage_backend [of "''accounts''" ?b1 a] by blast
    then show ?thesis
      using that [of b' "Header ''Accounts Analysis'' # out" "map (Scan ?acc) ks"] True
        scans_of_confirmed [OF conf]
      by simp
  next
    case False
    then show ?thesis using that [of ?b1 "[]" "[]"] by simp
  qed
  obtain b3 out3 s3 where st3:
    "(if ?trn \<in> set ?ex
      then map_option (\<lambda>(c', out). (c', Header ''Transactions Analysis'' # out))
             (except_exception ''transactions'' (transactions_try backend_client b2 a))
      else Some (b2, [])) = Some (b3, out3)"
    "calls b3 = calls b2 @ s3" "list_all (scan_of_confirmed b) s3"
  proof (cases "?trn \<in> set ?ex")
    case True
    then have conf: "confirmed b ?trn" by simp
    obtain b' out ks where "except_exception ''transactions'' (transactions_try backend_client b2 a) = Some (b', out)"
      "catalog b' = catalog b2" "calls b' = calls b2 @ map (Scan ?trn) ks"
      using transactions_stage_backend [of "''transactions''" b2 a] by blast
    then show ?thesis
      using that [of b' "Header ''Transactions Analysis'' # out" "map (Scan ?trn) ks"] True
        scans_of_confirmed [OF conf]
      by simp
  next
    case False
    then show ?thesis using that [of b2 "[]" "[]"] by simp
  qed
  have m: "main backend_client b a =
      Some (b3, [Header ''BudgetBuddy Database Review'', Header ''Step 1: Checking Tables'']
                  @ map (check_line b) (tables_of a) @ [Header ''Step 2: Analyzing Tables'']
                  @ out2 @ out3 @ [Header ''Review Complete!''])"
    unfolding main_def chk using st2(1) st3(1) by simp
  have c: "calls b3 = calls b @ map DescribeTable (tables_of a) @ (s2 @ s3)"
    using st2(3) st3(2) by simp
  have l: "list_all (scan_of_confirmed b) (s2 @ s3)"
    using st2(4) st3(3) by simp
  show ?thesis
    using m c l by (intro exI [of _ b3] exI [of _ "out2 @ out3 @ [Header ''Review Complete!'']"]
        exI [of _ "s2 @ s3"]) simp
qed

text \<open>
  Claim C8. On the scripted backend, for every list of candidate names the loop over
  the tables asks \<open>describe_table\<close> once for each name, in order, keeps exactly the
  names the backend confirms and prints one line for each name. A table that does not
  exist gets the warning line and is left out; another error of the probe gets the
  error line, with the exception, and the table is left out as well; neither ends the
  run. In a run of \<open>main\<close> the probes of all tables come first, and every call after
  them is a scan of a table that was confirmed.
\<close>

theorem existence_check_gates_analysis:
  "check_tables backend_client b tables [] [] =
     (filter (confirmed b) tables, b\<lparr>calls := calls b @ map DescribeTable tables\<rparr>,
      map (check_line b) tables) \<and>
   (map_of (catalog b) t = None \<longrightarrow> check_line b t = TableMissing t \<and> \<not> confirmed b t) \<and>
   (map_of (catalog b) t = Some (Inl (ResourceNotFoundException m)) \<longrightarrow>
      check_line b t = TableMissing t \<and> \<not> confirmed b t) \<and>
   (map_of (catalog b) t = Some (Inl (Exception m)) \<longrightarrow>
      check_line b t = ErrorChecking t (Exception m) \<and> \<not> confirmed b t) \<and>
   (\<exists>b' rest scans.
      main backend_client b a =
        Some (b', [Header ''BudgetBuddy Database Review'', Header ''Step 1: Checking Tables'']
                  @ map (check_line b) (tables_of a)
                  @ Header ''Step 2: Analyzing Tables'' # rest) \<and>
      calls b' = calls b @ map DescribeTable (tables_of a) @ scans \<and>
      list_all (scan_of_confirmed b) scans)"
  using main_backend [of b a]
  by (simp add: check_tables_backend check_line_def confirmed_def)

theorem existence_check_gates_analysis_witness:
  "map_of (catalog healthy_backend) ''Ghosts'' = None \<and>
   check_line healthy_backend ''Ghosts'' = TableMissing ''Ghosts'' \<and>
   \<not> confirmed healthy_backend ''Ghosts'' \<and>
   map_of (catalog healthy_backend) ''BudgetBuddy-AuditLogs'' =
     Some (Inl (ResourceNotFoundException ''Table not found'')) \<and>
   check_line healthy_backend ''BudgetBuddy-AuditLogs'' = TableMissing ''BudgetBuddy-AuditLogs'' \<and>
   \<not> confirmed healthy_backend ''BudgetBuddy-AuditLogs'' \<and>
   map_of (catalog healthy_backend) ''BudgetBuddy-Goals'' =
     Some (Inl (Exception ''AccessDeniedException'')) \<and>
   check_line healthy_backend ''BudgetBuddy-Goals'' =
     ErrorChecking ''BudgetBuddy-Goals'' (Exception ''AccessDeniedException'') \<and>
   \<not> confirmed healthy_backend ''BudgetBuddy-Goals'' \<and>
   check_tables backend_client healthy_backend
       [''Ghosts'', ''BudgetBuddy-Accounts'', ''BudgetBuddy-Goals''] [] [] =
     ([''BudgetBuddy-Accounts''],
      healthy_backend\<lparr>calls := [DescribeTable ''Ghosts'', DescribeTable ''BudgetBuddy-Accounts'',
                                  DescribeTable ''BudgetBuddy-Goals'']\<rparr>,
      [TableMissing ''Ghosts'', TableExists ''BudgetBuddy-Accounts'' (Some 3),
       ErrorChecking ''BudgetBuddy-Goals'' (Exception ''AccessDeniedException'')])"
proof -
  have h: "map_of (catalog healthy_backend) ''Ghosts'' = None"
    "map_of (catalog healthy_backend) ''BudgetBuddy-AuditLogs'' =
       Some (Inl (ResourceNotFoundException ''Table not found''))"
    "map_of (catalog healthy_backend) ''BudgetBuddy-Goals'' =
       Some (Inl (Exception ''AccessDeniedException''))"
    by (simp_all add: healthy_backend_def example_catalog_def)
  have c: "confirmed healthy_backend ''BudgetBuddy-Accounts''"
    "check_line healthy_backend ''BudgetBuddy-Accounts'' =
       TableExists ''BudgetBuddy-Accounts'' (Some 3)"
    "calls healthy_backend = []"
    by (simp_all add: healthy_backend_def example_catalog_def confirmed_def check_line_def)
  show ?thesis
    using existence_check_gates_analysis
        [of healthy_backend "[''Ghosts'', ''BudgetBuddy-Accounts'', ''BudgetBuddy-Goals'']"
          "''Ghosts''" "''x''" example_args]
      existence_check_gates_analysis
        [of healthy_backend "[]" "''BudgetBuddy-AuditLogs''" "''Table not found''"
          example_args]
      existence_check_gates_analysis
        [of healthy_backend "[]" "''BudgetBuddy-Goals''" "''AccessDeniedException''"
          example_args]
      h c
    by simp
qed

lemma transactions_report_has_report:
  "transactions \<noteq> [] \<Longrightarrow>
     TransactionReport (analyze_transactions transactions)
       \<in> set (transactions_report a transactions)"
  unfolding transactions_report_def Let_def
  by (simp only: if_True if_False simp_thms list.set insert_iff)

lemma accounts_report_has_report:
  "accounts \<noteq> [] \<Longrightarrow>
     AccountReport (analyze_accounts accounts) \<in> set (accounts_report a accounts)"
  unfolding accounts_report_def Let_def
  by (simp only: if_True if_False simp_thms list.set insert_iff)

text \<open>
  Claim C7. Let both tables be among the existing ones. When the scan of the accounts
  raises an exception, be it on a later page, the run prints the error with the
  exception and no report and writes no file for the accounts; it then scans the
  transactions from the state the failure left, and, when there is a transaction at
  all, prints the report of their analysis (and writes their file when asked to). When
  the scan of the transactions
  raises, the report of the accounts has been printed in full, and the error of the
  transactions follows it. The run ends normally in both cases.
\<close>

theorem failure_stays_in_its_table:
  assumes "check_tables dynamodb c (tables_of a) [] [] = (existing_tables, c1, out1)"
    and "table_prefix a @ ''-Accounts'' \<in> set existing_tables"
    and "table_prefix a @ ''-Transactions'' \<in> set existing_tables"
  shows
    "(scan_loop dynamodb c1 (table_prefix a @ ''-Accounts'') [] None = Some (Inl e, c2) \<and>
      scan_loop dynamodb c2 (table_prefix a @ ''-Transactions'') [] None
        = Some (Inr transactions, c3) \<longrightarrow>
        main dynamodb c a =
          Some (c3,
            [Header ''BudgetBuddy Database Review'', Header ''Step 1: Checking Tables'']
            @ out1
            @ [Header ''Step 2: Analyzing Tables'',
               Header ''Accounts Analysis'',
               Scanning (table_prefix a @ ''-Accounts''),
               ErrorAnalyzing ''accounts'' e,
               Header ''Transactions Analysis'',
               Scanning (table_prefix a @ ''-Transactions''),
               Found (length transactions)]
            @ transactions_report a transactions
            @ [Header ''Review Complete!''])) \<and>
     (scan_loop dynamodb c1 (table_prefix a @ ''-Accounts'') [] None = Some (Inr accounts, c2) \<and>
      scan_loop dynamodb c2 (table_prefix a @ ''-Transactions'') [] None = Some (Inl e, c3) \<longrightarrow>
        main dynamodb c a =
          Some (c3,
            [Header ''BudgetBuddy Database Review'', Header ''Step 1: Checking Tables'']
            @ out1
            @ [Header ''Step 2: Analyzing Tables'',
               Header ''Accounts Analysis'',
               Scanning (table_prefix a @ ''-Accounts''),
               Found (length accounts)]
            @ accounts_report a accounts
            @ [Header ''Transactions Analysis'',
               Scanning (table_prefix a @ ''-Transactions''),
               ErrorAnalyzing ''transactions'' e,
               Header ''Review Complete!''])) \<and>
     (transactions \<noteq> [] \<longrightarrow>
        TransactionReport (analyze_transactions transactions)
          \<in> set (transactions_report a transactions)) \<and>
     (accounts \<noteq> [] \<longrightarrow>
        AccountReport (analyze_accounts accounts) \<in> set (accounts_report a accounts))"
proof -
  let ?acc = "table_prefix a @ ''-Accounts''"
  let ?trn = "table_prefix a @ ''-Transactions''"
  have first: "main dynamodb c a =
      Some (c3,
        [Header ''BudgetBuddy Database Review'', Header ''Step 1: Checking Tables'']
        @ out1
        @ [Header ''Step 2: Analyzing Tables'', Header ''Accounts Analysis'', Scanning ?acc,
           ErrorAnalyzing ''accounts'' e, Header ''Transactions Analysis'', Scanning ?trn,
           Found (length transactions)]
        @ transactions_report a transactions
        @ [Header ''Review Complete!''])"
    if acc: "scan_loop dynamodb c1 ?acc [] None = Some (Inl e, c2)"
      and trn: "scan_loop dynamodb c2 ?trn [] None = Some (Inr transactions, c3)"
  proof -
    have s2: "except_exception ''accounts'' (accounts_try dynamodb c1 a) =
        Some (c2, [Scanning ?acc, ErrorAnalyzing ''accounts'' e])"
      by (simp add: accounts_try_def scan_table_def acc except_exception_def)
    have s3: "except_exception ''transactions'' (transactions_try dynamodb c2 a) =
        Some (c3, [Scanning ?trn, Found (length transactions)]
                  @ transactions_report a transactions)"
      by (simp add: transactions_try_def scan_table_def trn except_exception_def)
    show ?thesis
      unfolding main_def assms(1) using assms(2) assms(3) by (simp add: s2 s3)
  qed
  have second: "main dynamodb c a =
      Some (c3,
        [Header ''BudgetBuddy Database Review'', Header ''Step 1: Checking Tables'']
        @ out1
        @ [Header ''Step 2: Analyzing Tables'', Header ''Accounts Analysis'', Scanning ?acc,
           Found (length accounts)]
        @ accounts_report a accounts
        @ [Header ''Transactions Analysis'', Scanning ?trn,
           ErrorAnalyzing ''transactions'' e, Header ''Review Complete!''])"
    if acc: "scan_loop dynamodb c1 ?acc [] None = Some (Inr accounts, c2)"
      and trn: "scan_loop dynamodb c2 ?trn [] None = Some (Inl e, c3)"
  proof -
    have s2: "except_exception ''accounts'' (accounts_try dynamodb c1 a) =
        Some (c2, [Scanning ?acc, Found (length accounts)] @ accounts_report a accounts)"
      by (simp add: accounts_try_def scan_table_def acc except_exception_def)
    have s3: "except_exception ''transactions'' (transactions_try dynamodb c2 a) =
        Some (c3, [Scanning ?trn, ErrorAnalyzing ''transactions'' e])"
      by (simp add: transactions_try_def scan_table_def trn except_exception_def)
    show ?thesis
      unfolding main_def assms(1) using assms(2) assms(3) by (simp add: s2 s3)
  qed
  have reports:
    "transactions \<noteq> [] \<longrightarrow>
       TransactionReport (analyze_transactions transactions)
         \<in> set (transactions_report a transactions)"
    "accounts \<noteq> [] \<longrightarrow>
       AccountReport (analyze_accounts accounts) \<in> set (accounts_report a accounts)"
    by (intro impI, rule transactions_report_has_report, assumption)
       (intro impI, rule accounts_report_has_report, assumption)
  show ?thesis
  proof (intro conjI)
    show "scan_loop dynamodb c1 ?acc [] None = Some (Inl e, c2) \<and>
      scan_loop dynamodb c2 ?trn [] None = Some (Inr transactions, c3) \<longrightarrow>
      main dynamodb c a =
      Some (c3,
        [Header ''BudgetBuddy Database Review'', Header ''Step 1: Checking Tables'']
        @ out1
        @ [Header ''Step 2: Analyzing Tables'', Header ''Accounts Analysis'', Scanning ?acc,
           ErrorAnalyzing ''accounts'' e, Header ''Transactions Analysis'', Scanning ?trn,
           Found (length transactions)]
        @ transactions_report a transactions
        @ [Header ''Review Complete!''])"
      by (intro impI, elim conjE) (rule first)
    show "scan_loop dynamodb c1 ?acc [] None = Some (Inr accounts, c2) \<and>
      scan_loop dynamodb c2 ?trn [] None = Some (Inl e, c3) \<longrightarrow>
      main dynamodb c a =
      Some (c3,
        [Header ''BudgetBuddy Database Review'', Header ''Step 1: Checking Tables'']
        @ out1
        @ [Header ''Step 2: Analyzing Tables'', Header ''Accounts Analysis'', Scanning ?acc,
           Found (length accounts)]
        @ accounts_report a accounts
        @ [Header ''Transactions Analysis'', Scanning ?trn,
           ErrorAnalyzing ''transactions'' e, Header ''Review Complete!''])"
      by (intro impI, elim conjE) (rule second)
  qed (rule reports(1), rule reports(2))
qed

theorem failure_stays_in_its_table_witness:
  "check_tables backend_client failing_backend (tables_of example_args) [] [] =
     ([''BudgetBuddy-Users'', ''BudgetBuddy-Accounts'', ''BudgetBuddy-Transactions''],
      failing_checked,
      [TableExists ''BudgetBuddy-Users'' (Some 2),
       TableExists ''BudgetBuddy-Accounts'' (Some 3),
       TableExists ''BudgetBuddy-Transactions'' None,
       TableMissing ''BudgetBuddy-Budgets'',
       ErrorChecking ''BudgetBuddy-Goals'' (Exception ''AccessDeniedException''),
       TableMissing ''BudgetBuddy-AuditLogs'']) \<and>
   scan_loop backend_client failing_checked ''BudgetBuddy-Accounts'' [] None =
     Some (Inl (Exception ''RequestLimitExceeded''), failing_accounts_scanned) \<and>
   scan_loop backend_client failing_accounts_scanned ''BudgetBuddy-Transactions'' [] None =
     Some (Inr [transaction_1], failing_run_end) \<and>
   main backend_client failing_backend example_args =
     Some (failing_run_end,
       [Header ''BudgetBuddy Database Review'',
        Header ''Step 1: Checking Tables'',
        TableExists ''BudgetBuddy-Users'' (Some 2),
        TableExists ''BudgetBuddy-Accounts'' (Some 3),
        TableExists ''BudgetBuddy-Transactions'' None,
        TableMissing ''BudgetBuddy-Budgets'',
        ErrorChecking ''BudgetBuddy-Goals'' (Exception ''AccessDeniedException''),
        TableMissing ''BudgetBuddy-AuditLogs'',
        Header ''Step 2: Analyzing Tables'',
        Header ''Accounts Analysis'',
        Scanning ''BudgetBuddy-Accounts'',
        ErrorAnalyzing ''accounts'' (Exception ''RequestLimitExceeded''),
        Header ''Transactions Analysis'',
        Scanning ''BudgetBuddy-Transactions'',
        Found 1,
        TransactionReport (analyze_transactions [transaction_1]),
        Header ''Review Complete!'']) \<and>
   calls failing_run_end =
     [DescribeTable ''BudgetBuddy-Users'', DescribeTable ''BudgetBuddy-Accounts'',
      DescribeTable ''BudgetBuddy-Transactions'', DescribeTable ''BudgetBuddy-Budgets'',
      DescribeTable ''BudgetBuddy-Goals'', DescribeTable ''BudgetBuddy-AuditLogs'',
      Scan ''BudgetBuddy-Accounts'' None, Scan ''BudgetBuddy-Accounts'' (Some cursor_1),
      Scan ''BudgetBuddy-Transactions'' None] \<and>
   scan_loop backend_client broken_checked ''BudgetBuddy-Accounts'' [] None =
     Some (Inr [account_1, account_2, account_3], broken_accounts_scanned) \<and>
   scan_loop backend_client broken_accounts_scanned ''BudgetBuddy-Transactions'' [] None =
     Some (Inl (Exception ''InternalServerError''), broken_run_end) \<and>
   main backend_client broken_transactions_backend example_args =
     Some (broken_run_end,
       [Header ''BudgetBuddy Database Review'',
        Header ''Step 1: Checking Tables'',
        TableExists ''BudgetBuddy-Users'' (Some 2),
        TableExists ''BudgetBuddy-Accounts'' (Some 3),
        TableExists ''BudgetBuddy-Transactions'' None,
        TableMissing ''BudgetBuddy-Budgets'',
        ErrorChecking ''BudgetBuddy-Goals'' (Exception ''AccessDeniedException''),
        TableMissing ''BudgetBuddy-AuditLogs'',
        Header ''Step 2: Analyzing Tables'',
        Header ''Accounts Analysis'',
        Scanning ''BudgetBuddy-Accounts'',
        Found 3,
        AccountReport (analyze_accounts [account_1, account_2, account_3]),
        Header ''Transactions Analysis'',
        Scanning ''BudgetBuddy-Transactions'',
        ErrorAnalyzing ''transactions'' (Exception ''InternalServerError''),
        Header ''Review Complete!''])"
proof -
  have pre: "table_prefix example_args = ''BudgetBuddy''"
    by (simp add: example_args_def)
  have tabs: "tables_of example_args =
      [''BudgetBuddy-Users'', ''BudgetBuddy-Accounts'', ''BudgetBuddy-Transactions'',
       ''BudgetBuddy-Budgets'', ''BudgetBuddy-Goals'', ''BudgetBuddy-AuditLogs'']"
    by (simp add: tables_of_def pre)
  have h1: "check_tables backend_client failing_backend (tables_of example_args) [] [] =
     ([''BudgetBuddy-Users'', ''BudgetBuddy-Accounts'', ''BudgetBuddy-Transactions''],
      failing_checked,
      [TableExists ''BudgetBuddy-Users'' (Some 2),
       TableExists ''BudgetBuddy-Accounts'' (Some 3),
       TableExists ''BudgetBuddy-Transactions'' None,
       TableMissing ''BudgetBuddy-Budgets'',
       ErrorChecking ''BudgetBuddy-Goals'' (Exception ''AccessDeniedException''),
       TableMissing ''BudgetBuddy-AuditLogs''])"
    unfolding check_tables_backend failing_checked_def tabs
    by (simp add: failing_backend_def example_catalog_def confirmed_def check_line_def)
  have h2: "table_prefix example_args @ ''-Accounts''
      \<in> set [''BudgetBuddy-Users'', ''BudgetBuddy-Accounts'', ''BudgetBuddy-Transactions'']"
    and h3: "table_prefix example_args @ ''-Transactions''
      \<in> set [''BudgetBuddy-Users'', ''BudgetBuddy-Accounts'', ''BudgetBuddy-Transactions'']"
    by (simp_all add: pre)
  have s1: "map_of (script failing_checked) ''BudgetBuddy-Accounts'' =
      Some (Inr page_1 # [Inl (Exception ''RequestLimitExceeded'')])"
    by (simp add: failing_checked_def failing_backend_def)
  let ?b1 = "after_scan failing_checked ''BudgetBuddy-Accounts''
      [Inl (Exception ''RequestLimitExceeded'')] [sent_key None]"
  have s2: "map_of (script ?b1) ''BudgetBuddy-Accounts'' =
      Some (Inl (Exception ''RequestLimitExceeded'') # [])"
    by (rule after_scan_script)
  have "scan_loop backend_client failing_checked ''BudgetBuddy-Accounts'' [] None =
      scan_loop backend_client ?b1 ''BudgetBuddy-Accounts'' ([] @ page_items page_1)
        (LastEvaluatedKey page_1)"
    unfolding scan_loop_step_page [OF s1] by (simp add: page_1_def cursor_1_def)
  also have "\<dots> = Some (Inl (Exception ''RequestLimitExceeded''),
      after_scan ?b1 ''BudgetBuddy-Accounts'' [] [sent_key (LastEvaluatedKey page_1)])"
    by (rule scan_loop_step_error [OF s2])
  also have "after_scan ?b1 ''BudgetBuddy-Accounts'' [] [sent_key (LastEvaluatedKey page_1)] =
      failing_accounts_scanned"
    by (simp add: after_scan_twice failing_accounts_scanned_def sent_key_def page_1_def
          cursor_1_def)
  finally have h4: "scan_loop backend_client failing_checked ''BudgetBuddy-Accounts'' [] None =
      Some (Inl (Exception ''RequestLimitExceeded''), failing_accounts_scanned)" .
  have s3: "map_of (script failing_accounts_scanned) ''BudgetBuddy-Transactions'' =
      Some (map Inr [transactions_page] @ [])"
    by (simp add: failing_accounts_scanned_def after_scan_def set_script_map_of
          failing_checked_def failing_backend_def)
  have wp: "well_paged [transactions_page]"
    by (simp add: transactions_page_def)
  have h5: "scan_loop backend_client failing_accounts_scanned ''BudgetBuddy-Transactions'' [] None =
      Some (Inr [transaction_1], failing_run_end)"
    unfolding scan_loop_pages [OF wp s3]
    by (simp add: failing_run_end_def sent_key_def page_items_def transactions_page_def)
  have rep: "transactions_report example_args [transaction_1] =
      [TransactionReport (analyze_transactions [transaction_1])]"
    by (simp add: transactions_report_def example_args_def Let_def)
  have log: "calls failing_run_end =
     [DescribeTable ''BudgetBuddy-Users'', DescribeTable ''BudgetBuddy-Accounts'',
      DescribeTable ''BudgetBuddy-Transactions'', DescribeTable ''BudgetBuddy-Budgets'',
      DescribeTable ''BudgetBuddy-Goals'', DescribeTable ''BudgetBuddy-AuditLogs'',
      Scan ''BudgetBuddy-Accounts'' None, Scan ''BudgetBuddy-Accounts'' (Some cursor_1),
      Scan ''BudgetBuddy-Transactions'' None]"
    by (simp add: failing_run_end_def failing_accounts_scanned_def failing_checked_def
          after_scan_def tabs failing_backend_def)
  have first: "main backend_client failing_backend example_args =
     Some (failing_run_end,
       [Header ''BudgetBuddy Database Review'',
        Header ''Step 1: Checking Tables'',
        TableExists ''BudgetBuddy-Users'' (Some 2),
        TableExists ''BudgetBuddy-Accounts'' (Some 3),
        TableExists ''BudgetBuddy-Transactions'' None,
        TableMissing ''BudgetBuddy-Budgets'',
        ErrorChecking ''BudgetBuddy-Goals'' (Exception ''AccessDeniedException''),
        TableMissing ''BudgetBuddy-AuditLogs'',
        Header ''Step 2: Analyzing Tables'',
        Header ''Accounts Analysis'',
        Scanning ''BudgetBuddy-Accounts'',
        ErrorAnalyzing ''accounts'' (Exception ''RequestLimitExceeded''),
        Header ''Transactions Analysis'',
        Scanning ''BudgetBuddy-Transactions'',
        Found 1,
        TransactionReport (analyze_transactions [transaction_1]),
        Header ''Review Complete!''])"
    using failure_stays_in_its_table [OF h1 h2 h3,
        of "Exception ''RequestLimitExceeded''" failing_accounts_scanned "[transaction_1]"
           failing_run_end "[]"]
      h4 h5
    by (simp add: pre rep)
  have g1: "check_tables backend_client broken_transactions_backend (tables_of example_args) [] [] =
     ([''BudgetBuddy-Users'', ''BudgetBuddy-Accounts'', ''BudgetBuddy-Transactions''],
      broken_checked,
      [TableExists ''BudgetBuddy-Users'' (Some 2),
       TableExists ''BudgetBuddy-Accounts'' (Some 3),
       TableExists ''BudgetBuddy-Transactions'' None,
       TableMissing ''BudgetBuddy-Budgets'',
       ErrorChecking ''BudgetBuddy-Goals'' (Exception ''AccessDeniedException''),
       TableMissing ''BudgetBuddy-AuditLogs''])"
    unfolding check_tables_backend broken_checked_def tabs
    by (simp add: broken_transactions_backend_def example_catalog_def confirmed_def
          check_line_def)
  have t1: "map_of (script broken_checked) ''BudgetBuddy-Accounts'' =
      Some (map Inr [page_1, page_2] @ [])"
    by (simp add: broken_checked_def broken_transactions_backend_def)
  have wp2: "well_paged [page_1, page_2]"
    by (simp add: page_1_def page_2_def cursor_1_def)
  have g4: "scan_loop backend_client broken_checked ''BudgetBuddy-Accounts'' [] None =
      Some (Inr [account_1, account_2, account_3], broken_accounts_scanned)"
    unfolding scan_loop_pages [OF wp2 t1]
    by (simp add: broken_accounts_scanned_def sent_key_def page_items_def page_1_def page_2_def)
  have t2: "map_of (script broken_accounts_scanned) ''BudgetBuddy-Transactions'' =
      Some (Inl (Exception ''InternalServerError'') # [])"
    by (simp add: broken_accounts_scanned_def after_scan_def set_script_map_of
          broken_checked_def broken_transactions_backend_def)
  have g5: "scan_loop backend_client broken_accounts_scanned ''BudgetBuddy-Transactions'' [] None =
      Some (Inl (Exception ''InternalServerError''), broken_run_end)"
    unfolding scan_loop_step_error [OF t2]
    by (simp add: broken_run_end_def sent_key_def)
  have rep2: "accounts_report example_args [account_1, account_2, account_3] =
      [AccountReport (analyze_accounts [account_1, account_2, account_3])]"
    by (simp add: accounts_report_def example_args_def Let_def)
  have second: "main backend_client broken_transactions_backend example_args =
     Some (broken_run_end,
       [Header ''BudgetBuddy Database Review'',
        Header ''Step 1: Checking Tables'',
        TableExists ''BudgetBuddy-Users'' (Some 2),
        TableExists ''BudgetBuddy-Accounts'' (Some 3),
        TableExists ''BudgetBuddy-Transactions'' None,
        TableMissing ''BudgetBuddy-Budgets'',
        ErrorChecking ''BudgetBuddy-Goals'' (Exception ''AccessDeniedException''),
        TableMissing ''BudgetBuddy-AuditLogs'',
        Header ''Step 2: Analyzing Tables'',
        Header ''Accounts Analysis'',
        Scanning ''BudgetBuddy-Accounts'',
        Found 3,
        AccountReport (analyze_accounts [account_1, account_2, account_3]),
        Header ''Transactions Analysis'',
        Scanning ''BudgetBuddy-Transactions'',
        ErrorAnalyzing ''transactions'' (Exception ''InternalServerError''),
        Header ''Review Complete!''])"
    using failure_stays_in_its_table [OF g1 h2 h3,
        of "Exception ''InternalServerError''" broken_accounts_scanned "[]"
           broken_run_end "[account_1, account_2, account_3]"]
      g4 g5
    by (simp add: pre rep2)
  show ?thesis
    using h1 h4 h5 log first g4 g5 second by simp
qed

section \<open>The loops and the reference constructions\<close>

lemma entries_from_keys:
  "distinct (map fst m) \<Longrightarrow> map (\<lambda>k. (k, the (map_of m k))) (map fst m) = m"
proof (induction m)
  case Nil
  then show ?case by simp
next
  case (Cons a m)
  obtain k v where a: "a = (k, v)" by (cases a)
  have fresh: "k \<notin> fst ` set m" and d: "distinct (map fst m)"
    using Cons.prems a by auto
  have eq: "map (\<lambda>k'. (k', the (map_of ((k, v) # m) k'))) (map fst m) =
        map (\<lambda>k'. (k', the (map_of m k'))) (map fst m)"
    using fresh by (intro map_cong) auto
  have "map (\<lambda>k'. (k', the (map_of (a # m) k'))) (map fst (a # m)) =
      (k, the (map_of ((k, v) # m) k))
        # map (\<lambda>k'. (k', the (map_of ((k, v) # m) k'))) (map fst m)"
    by (simp only: a list.map fst_conv)
  also have "\<dots> = (k, v) # map (\<lambda>k'. (k', the (map_of m k'))) (map fst m)"
    by (simp only: eq) simp
  also have "\<dots> = a # m"
    by (simp only: Cons.IH [OF d] a)
  finally show ?case .
qed

lemma dd_append_key_order:
  "map fst (dd_append m k x) = (if k \<in> set (map fst m) then map fst m else map fst m @ [k])"
  by (induction m k x rule: dd_append.induct) auto

lemma dd_incr_key_order:
  "map fst (dd_incr m k) = (if k \<in> set (map fst m) then map fst m else map fst m @ [k])"
  by (induction m k rule: dd_incr.induct) auto

lemma nonempty_strings_Cons:
  "filter (\<lambda>v. v \<noteq> []) (present_strings f (a # items)) =
     (case identity_value f a of None \<Rightarrow> [] | Some v \<Rightarrow> [v])
       @ filter (\<lambda>v. v \<noteq> []) (present_strings f items)"
proof (cases "get_attr a f")
  case None
  then show ?thesis by (simp add: present_strings_def identity_value_def)
next
  case (Some av)
  then show ?thesis by (cases av) (simp_all add: present_strings_def identity_value_def)
qed

lemma index_fold_keys:
  "map fst (fold (index_insert f) items m) =
     fold (\<lambda>x ks. if x \<in> set ks then ks else ks @ [x])
       (filter (\<lambda>v. v \<noteq> []) (present_strings f items)) (map fst m)"
proof (induction items arbitrary: m)
  case Nil
  then show ?case by (simp add: present_strings_def)
next
  case (Cons a items)
  show ?case
  proof (cases "identity_value f a")
    case None
    then show ?thesis
      by (simp add: nonempty_strings_Cons index_insert_None Cons)
  next
    case (Some v)
    then show ?thesis
      by (simp add: nonempty_strings_Cons index_insert_Some Cons dd_append_key_order)
  qed
qed

lemma field_index_keys:
  "map fst (field_index f items) = first_seen (filter (\<lambda>v. v \<noteq> []) (present_strings f items))"
  by (simp add: field_index_def index_fold_keys first_seen_def)

lemma field_index_is_nonempty_index: "field_index f items = nonempty_index f items"
proof -
  let ?idx = "field_index f items"
  have entry: "(k, the (map_of ?idx k)) = (k, holders f k items)" if "k \<in> set (map fst ?idx)" for k
  proof -
    from that obtain g where g: "(k, g) \<in> set ?idx" by auto
    then have s: "g = sharing f k items" "g \<noteq> []" by (auto simp add: field_index_entry)
    have "k \<noteq> []" using s sharing_empty_value [of f items] by auto
    then show ?thesis
      using s by (auto simp add: field_index_map_of sharing_holders)
  qed
  have "?idx = map (\<lambda>k. (k, the (map_of ?idx k))) (map fst ?idx)"
    by (rule entries_from_keys [OF field_index_distinct, symmetric])
  also have "\<dots> = map (\<lambda>k. (k, holders f k items)) (map fst ?idx)"
    using entry by (intro map_cong) auto
  finally show ?thesis by (simp add: nonempty_index_def field_index_keys)
qed

lemma owner_bucket_key: "owner_bucket f i = owner_key f i"
proof (cases "get_attr i f")
  case None
  then show ?thesis by (simp add: owner_bucket_def owner_key_def get_S_default_def)
next
  case (Some av)
  then show ?thesis
    by (cases av) (simp_all add: owner_bucket_def owner_key_def get_S_default_def)
qed

lemma owner_key_cases:
  "owner_key f i = u \<longleftrightarrow> get_attr i f = Some (S u) \<or> (u = ''N/A'' \<and> no_string f i)"
proof (cases "get_attr i f")
  case None
  then show ?thesis by (auto simp add: owner_key_def no_string_def)
next
  case (Some av)
  then show ?thesis by (cases av) (auto simp add: owner_key_def no_string_def)
qed

lemma string_owner_not_no_string: "get_attr i f = Some (S u) \<Longrightarrow> \<not> no_string f i"
  by (simp add: no_string_def)

lemma bucket_count_owner_count: "bucket_count f u items = owner_count f u items"
proof (induction items)
  case Nil
  then show ?case by (simp add: bucket_count_def owner_count_def holders_def)
next
  case (Cons a items)
  have ih: "length (filter (\<lambda>i. owner_key f i = u) items) = owner_count f u items"
    using Cons by (simp add: bucket_count_def owner_bucket_key)
  show ?case
    using ih string_owner_not_no_string [of a f u]
    by (auto simp add: bucket_count_def owner_bucket_key owner_count_def holders_def
          owner_key_cases)
qed

lemma aggregate_fold_keys:
  "map fst (fold (aggregate_insert f) items m) =
     fold (\<lambda>x ks. if x \<in> set ks then ks else ks @ [x]) (map (owner_key f) items) (map fst m)"
proof (induction items arbitrary: m)
  case Nil
  then show ?case by simp
next
  case (Cons a items)
  have "map fst (aggregate_insert f a m) =
      (if owner_key f a \<in> set (map fst m) then map fst m else map fst m @ [owner_key f a])"
    by (simp only: aggregate_insert_bucket dd_incr_key_order owner_bucket_key)
  then show ?case using Cons [of "aggregate_insert f a m"] by simp
qed

lemma field_aggregate_is_owner_aggregate: "field_aggregate f items = owner_aggregate f items"
proof -
  let ?agg = "field_aggregate f items"
  have entry: "(k, the (map_of ?agg k)) = (k, owner_count f k items)"
    if "k \<in> set (map fst ?agg)" for k
  proof -
    from that have "map_of ?agg k \<noteq> None" by (simp add: map_of_eq_None_iff)
    then show ?thesis
      by (auto simp add: field_aggregate_map_of bucket_count_owner_count [unfolded bucket_count_def]
            split: if_splits)
  qed
  have "?agg = map (\<lambda>k. (k, the (map_of ?agg k))) (map fst ?agg)"
    by (rule entries_from_keys [OF field_aggregate_distinct, symmetric])
  also have "\<dots> = map (\<lambda>k. (k, owner_count f k items)) (map fst ?agg)"
    using entry by (intro map_cong) auto
  finally show ?thesis
    by (simp add: owner_aggregate_def field_aggregate_def aggregate_fold_keys first_seen_def)
qed

lemma field_aggregate_tallies: "tallies f items (field_aggregate f items) u"
proof -
  let ?xs = "filter (\<lambda>i. owner_bucket f i = u) items"
  have n: "length ?xs = owner_count f u items"
    using bucket_count_owner_count [of f u items] by (simp add: bucket_count_def)
  have "(?xs = []) = (owner_count f u items = 0)"
    using n length_0_conv [of ?xs] by simp
  then show ?thesis
    using n
    by (simp add: tallies_def field_aggregate_distinct field_aggregate_sum
          field_aggregate_map_of)
qed

lemma duplicate_groups_shared:
  "duplicate_groups f items = shared_entries (nonempty_index f items)"
proof -
  have "(\<lambda>(k, g). 1 < length g) = (\<lambda>(v :: string, g :: item list). 2 \<le> length g)"
    by (intro ext) auto
  then show ?thesis
    by (simp add: duplicate_groups_filter shared_entries_def field_index_is_nonempty_index)
qed

text \<open>
  Claim C6, as amended. For every stream, the one loop of \<open>analyze_accounts\<close> and the one
  loop of \<open>analyze_transactions\<close> leave in their local maps and aggregates exactly what
  the reference constructions give, each with a traversal of its own: for every
  identity field the index that maps each non-empty string of the field, in the order
  in which the strings are first seen, to the items that hold it in scan order; and
  for every owner field the aggregate that counts an item under its string owner, or
  under \<open>N/A\<close> when it has none. The groups of duplicates of the analyses are the
  entries of the reference indices with two or more items, and their aggregates are
  the reference aggregates.
\<close>

theorem single_pass_is_reference:
  "account_id_map items = nonempty_index ''accountId'' items \<and>
   plaid_account_id_map items = nonempty_index ''plaidAccountId'' items \<and>
   by_user (snd (snd (accounts_after_loop items))) = owner_aggregate ''userId'' items \<and>
   transaction_id_map items = nonempty_index ''transactionId'' items \<and>
   plaid_transaction_id_map items = nonempty_index ''plaidTransactionId'' items \<and>
   by_user (snd (snd (transactions_after_loop items))) = owner_aggregate ''userId'' items \<and>
   by_account (snd (snd (transactions_after_loop items))) =
     owner_aggregate ''accountId'' items \<and>
   duplicate_account_ids (analyze_accounts items) =
     shared_entries (nonempty_index ''accountId'' items) \<and>
   duplicate_plaid_ids (analyze_accounts items) =
     shared_entries (nonempty_index ''plaidAccountId'' items) \<and>
   by_user (analyze_accounts items) = owner_aggregate ''userId'' items \<and>
   duplicate_transaction_ids (analyze_transactions items) =
     shared_entries (nonempty_index ''transactionId'' items) \<and>
   duplicate_plaid_ids (analyze_transactions items) =
     shared_entries (nonempty_index ''plaidTransactionId'' items) \<and>
   by_user (analyze_transactions items) = owner_aggregate ''userId'' items \<and>
   by_account (analyze_transactions items) = owner_aggregate ''accountId'' items"
proof -
  have loops:
    "account_id_map items = nonempty_index ''accountId'' items"
    "plaid_account_id_map items = nonempty_index ''plaidAccountId'' items"
    "by_user (snd (snd (accounts_after_loop items))) = owner_aggregate ''userId'' items"
    "transaction_id_map items = nonempty_index ''transactionId'' items"
    "plaid_transaction_id_map items = nonempty_index ''plaidTransactionId'' items"
    "by_user (snd (snd (transactions_after_loop items))) = owner_aggregate ''userId'' items"
    "by_account (snd (snd (transactions_after_loop items))) =
       owner_aggregate ''accountId'' items"
    by (simp_all only: after_loop_maps field_index_is_nonempty_index
          field_aggregate_is_owner_aggregate)
  have results:
    "duplicate_account_ids (analyze_accounts items) =
       shared_entries (nonempty_index ''accountId'' items)"
    "duplicate_plaid_ids (analyze_accounts items) =
       shared_entries (nonempty_index ''plaidAccountId'' items)"
    "by_user (analyze_accounts items) = owner_aggregate ''userId'' items"
    "duplicate_transaction_ids (analyze_transactions items) =
       shared_entries (nonempty_index ''transactionId'' items)"
    "duplicate_plaid_ids (analyze_transactions items) =
       shared_entries (nonempty_index ''plaidTransactionId'' items)"
    "by_user (analyze_transactions items) = owner_aggregate ''userId'' items"
    "by_account (analyze_transactions items) = owner_aggregate ''accountId'' items"
    by (simp_all only: analyze_accounts_fields analyze_transactions_fields
          duplicate_groups_shared field_aggregate_is_owner_aggregate)
  show ?thesis
    using loops results by (intro conjI)
qed

text \<open>
  Claim C6 as stated compares the loop with an index of every value that is present.
  For two accounts whose \<open>plaidAccountId\<close> is the empty string that index has one entry,
  with both accounts, and the map of the loop has none. In the same way the loop
  counts two accounts whose owner is a number under \<open>N/A\<close>, though neither lacks the
  owner field.
\<close>

theorem single_pass_differs_from_spec_index:
  "plaid_account_id_map manual_accounts = [] \<and>
   spec_index ''plaidAccountId'' manual_accounts = [([], manual_accounts)] \<and>
   filter (lacks_field ''userId'') numeric_owners = [] \<and>
   by_user (snd (snd (accounts_after_loop numeric_owners))) = [(''N/A'', 2)]"
  by (simp add: plaid_account_id_map_def accounts_after_loop_def eval_defs manual_accounts_def
        numeric_owners_def spec_index_def first_seen_def present_strings_def holders_def
        lacks_field_def)

text \<open>
  Claim C4, as amended. For every stream, the aggregates \<open>by_user\<close> of both analyses and
  \<open>by_account\<close> of the transactions count every record in one bucket: the string it
  holds in the owner field, or \<open>N/A\<close> when the field is missing or holds a value that
  is not a string. So the bucket \<open>u\<close> holds the number of records with the string \<open>u\<close>,
  to which the bucket \<open>N/A\<close> adds the records without a string owner; a bucket has one
  entry, and the counts add up to the number of records, which is the \<open>total\<close> of the
  analysis. For the owners \<open>u1\<close>, \<open>u1\<close>, \<open>u2\<close> the aggregate is \<open>{u1: 2, u2: 1}\<close>.
\<close>

theorem owner_counts_sum_to_total:
  "tallies ''userId'' items (by_user (analyze_accounts items)) u \<and>
   tallies ''userId'' items (by_user (analyze_transactions items)) u \<and>
   tallies ''accountId'' items (by_account (analyze_transactions items)) u \<and>
   total (analyze_accounts items) = length items \<and>
   total (analyze_transactions items) = length items \<and>
   by_user (analyze_accounts owners_u1_u1_u2) = [(''u1'', 2), (''u2'', 1)]"
proof -
  have "by_user (analyze_accounts owners_u1_u1_u2) = [(''u1'', 2), (''u2'', 1)]"
    by (simp add: owners_u1_u1_u2_def eval_defs)
  then show ?thesis
    by (simp add: analyze_accounts_fields analyze_transactions_fields field_aggregate_tallies)
qed

theorem owner_counts_sum_to_total_witness:
  "owner_count ''userId'' ''u1'' owners_mixed = 2 \<and>
   owner_count ''userId'' ''N/A'' owners_mixed = 2 \<and>
   owner_count ''userId'' ''7'' owners_mixed = 0 \<and>
   map_of (by_user (analyze_accounts owners_mixed)) ''u1'' = Some 2 \<and>
   map_of (by_user (analyze_accounts owners_mixed)) ''N/A'' = Some 2 \<and>
   map_of (by_user (analyze_accounts owners_mixed)) ''7'' = None \<and>
   sum_list (map snd (by_user (analyze_accounts owners_mixed))) = 4"
proof -
  have n: "owner_count ''userId'' ''u1'' owners_mixed = 2"
    "owner_count ''userId'' ''N/A'' owners_mixed = 2"
    "owner_count ''userId'' ''7'' owners_mixed = 0"
    "length owners_mixed = 4"
    by (simp_all add: owner_count_def holders_def no_string_def get_attr_def owners_mixed_def)
  show ?thesis
    using owner_counts_sum_to_total [of owners_mixed "''u1''"]
      owner_counts_sum_to_total [of owners_mixed "''N/A''"]
      owner_counts_sum_to_total [of owners_mixed "''7''"]
    by (simp add: tallies_def n)
qed

text \<open>
  Claim C4 as stated keeps the bucket of the unknown owner for the records without the
  owner field. Two accounts whose \<open>userId\<close> is a number have the field, and both are
  counted under \<open>N/A\<close>: \<^verbatim>\<open>.get('S', 'N/A')\<close> falls back whenever the value has no
  string.
\<close>

theorem numeric_owner_counted_as_unknown:
  "filter (lacks_field ''userId'') numeric_owners = [] \<and>
   by_user (analyze_accounts numeric_owners) = [(''N/A'', 2)]"
  by (simp add: numeric_owners_def eval_defs lacks_field_def)

end
